theory Spec2Isabelle
  imports Complex_Main "HOL-Library.AList" "HOL-Library.Sublist"
    "HOL-Library.Char_ord" "HOL-Library.List_Lexorder"
begin

section \<open>Values of the document store\<close>

text \<open>
  The services in \<^verbatim>\<open>src/src/services\<close> read and write a hosted document store whose
  snapshots are plain JavaScript values. A snapshot value is modelled as a JSON tree.
  An object is a list of key/value pairs in iteration order; \<open>JNull\<close> stands for both
  \<^verbatim>\<open>null\<close> and \<^verbatim>\<open>undefined\<close> (an absent node, an absent property). Numbers are
  rationals: the code only ever tests them for being zero.
\<close>

datatype json =
    JNull
  | JBool bool
  | JNum rat
  | JStr string
  | JArr "json list"
  | JObj "(string \<times> json) list"

datatype error = RemoteFault | TypeError | InvalidValue | InvalidPath

text \<open>JavaScript truthiness, as used by \<^verbatim>\<open>||\<close>, \<^verbatim>\<open>&&\<close>, \<^verbatim>\<open>!\<close> and \<^verbatim>\<open>if\<close>.\<close>

fun truthy :: "json \<Rightarrow> bool" where
  "truthy JNull = False"
| "truthy (JBool b) = b"
| "truthy (JNum n) = (n \<noteq> 0)"
| "truthy (JStr s) = (s \<noteq> [])"
| "truthy (JArr xs) = True"
| "truthy (JObj kvs) = True"

definition js_or :: "json \<Rightarrow> json \<Rightarrow> json" where
  "js_or a b = (if truthy a then a else b)"

text \<open>\<^verbatim>\<open>typeof v === 'object'\<close>: objects, arrays and \<^verbatim>\<open>null\<close>.\<close>

fun typeof_object :: "json \<Rightarrow> bool" where
  "typeof_object JNull = True"
| "typeof_object (JArr xs) = True"
| "typeof_object (JObj kvs) = True"
| "typeof_object v = False"

text \<open>
  \<^verbatim>\<open>isRecord\<close> of the merging revision:
  \<^verbatim>\<open>typeof value === 'object' && value !== null && !Array.isArray(value)\<close>.
\<close>

fun isRecord :: "json \<Rightarrow> bool" where
  "isRecord (JObj kvs) = True"
| "isRecord v = False"

text \<open>Decimal rendering of an index, as JavaScript names the elements of an array.\<close>

definition digit_char :: "nat \<Rightarrow> char" where
  "digit_char d = ''0123456789'' ! d"

fun string_of_nat :: "nat \<Rightarrow> string" where
  "string_of_nat n =
     (if n < 10 then [digit_char n] else string_of_nat (n div 10) @ [digit_char (n mod 10)])"

declare string_of_nat.simps [simp del]

fun indexed :: "nat \<Rightarrow> 'a list \<Rightarrow> (string \<times> 'a) list" where
  "indexed i [] = []"
| "indexed i (x # xs) = (string_of_nat i, x) # indexed (Suc i) xs"

text \<open>
  \<^verbatim>\<open>Object.entries(v)\<close> and the spread \<^verbatim>\<open>{...v}\<close>: the own enumerable properties. A
  string enumerates its characters, an array its elements, a number or boolean nothing.
  Every call site guards against \<^verbatim>\<open>null\<close> first, where JavaScript would throw.
\<close>

fun Object_entries :: "json \<Rightarrow> (string \<times> json) list" where
  "Object_entries (JObj kvs) = kvs"
| "Object_entries (JArr xs) = indexed 0 xs"
| "Object_entries (JStr s) = indexed 0 (map (\<lambda>c. JStr [c]) s)"
| "Object_entries v = []"

text \<open>
  Reading a property \<^verbatim>\<open>v.name\<close> by one of the fixed, non-builtin names the services
  use. On \<^verbatim>\<open>null\<close> the read throws; on anything but an object it gives
  \<^verbatim>\<open>undefined\<close>.
\<close>

fun get_prop :: "json \<Rightarrow> string \<Rightarrow> error + json" where
  "get_prop JNull name = Inl TypeError"
| "get_prop (JObj kvs) name = Inr (case map_of kvs name of Some v \<Rightarrow> v | None \<Rightarrow> JNull)"
| "get_prop v name = Inr JNull"

text \<open>The same read where the receiver is already known not to be \<^verbatim>\<open>null\<close>.\<close>

definition read_prop :: "json \<Rightarrow> string \<Rightarrow> json" where
  "read_prop v name = (case get_prop v name of Inr x \<Rightarrow> x | Inl e \<Rightarrow> JNull)"

text \<open>
  A remote read \<^verbatim>\<open>await get(queryRef)\<close> followed by \<^verbatim>\<open>snapshot.val()\<close>. The store
  is an external service: a read either faults or yields a value. The query names the
  path and the optional \<^verbatim>\<open>startAt\<close> and \<^verbatim>\<open>limitToFirst\<close> constraints. A path that
  \<^verbatim>\<open>ref\<close> refuses makes the read throw inside the same \<^verbatim>\<open>try\<close>; for the readers of
  this kind that is one more fault.
\<close>

datatype query = Query (q_path: string) (q_startAt: "string option") (q_limit: "nat option")

type_synonym remote = "query \<Rightarrow> error + json"

section \<open>Bill of materials\<close>

record BoMComponent =
  Component_Material :: string
  Component_Description :: json
  Standard_Price :: json
  Supplier :: json

text \<open>The object literal built for one child in \<^verbatim>\<open>getBoMComponents\<close>.\<close>

definition bom_component :: "string \<Rightarrow> json \<Rightarrow> BoMComponent" where
  "bom_component materialCode componentData =
     \<lparr> Component_Material = materialCode,
       Component_Description = js_or (read_prop componentData ''Component_Description'') (JStr ''''),
       Standard_Price = js_or (read_prop componentData ''Standard_Price'') (JNum 0),
       Supplier = js_or (read_prop componentData ''Supplier'') (JStr '''') \<rparr>"

text \<open>The body of the \<^verbatim>\<open>forEach\<close> callback, on the accumulator \<^verbatim>\<open>components\<close>.\<close>

definition bom_step ::
  "string \<times> json \<Rightarrow> (string \<times> BoMComponent) list \<Rightarrow> (string \<times> BoMComponent) list" where
  "bom_step entry components =
     (case entry of (materialCode, componentData) \<Rightarrow>
        if truthy componentData \<and> typeof_object componentData
        then AList.update materialCode (bom_component materialCode componentData) components
        else components)"

definition getBoMComponents :: "remote \<Rightarrow> string \<Rightarrow> (string \<times> BoMComponent) list" where
  "getBoMComponents remote modelWithMY =
     (case remote (Query (''BoM/'' @ modelWithMY) None None) of
        Inl e \<Rightarrow> []
      | Inr data \<Rightarrow>
          if \<not> truthy data then []
          else fold bom_step (Object_entries data) [])"

section \<open>Parts repository\<close>

text \<open>
  \<^verbatim>\<open>String.prototype.toLowerCase\<close> and \<^verbatim>\<open>String.prototype.includes\<close>. Strings are byte
  lists; the letters \<^verbatim>\<open>A\<close> to \<^verbatim>\<open>Z\<close> are folded, every other byte is kept.
\<close>

definition lower_char :: "char \<Rightarrow> char" where
  "lower_char c =
     (case map_of (zip ''ABCDEFGHIJKLMNOPQRSTUVWXYZ'' ''abcdefghijklmnopqrstuvwxyz'') c of
        Some d \<Rightarrow> d
      | None \<Rightarrow> c)"

definition toLowerCase :: "string \<Rightarrow> string" where
  "toLowerCase s = map lower_char s"

fun str_includes :: "string \<Rightarrow> string \<Rightarrow> bool" where
  "str_includes [] t = (t = [])"
| "str_includes (c # s) t = (prefix t (c # s) \<or> str_includes s t)"

text \<open>\<^verbatim>\<open>(v || '').toLowerCase()\<close>: a truthy value that is not a string has no such method.\<close>

definition lower_text :: "json \<Rightarrow> error + string" where
  "lower_text v =
     (case js_or v (JStr '''') of JStr s \<Rightarrow> Inr (toLowerCase s) | _ \<Rightarrow> Inl TypeError)"

text \<open>\<^verbatim>\<open>getAllParts\<close> of \<^verbatim>\<open>firebase.ts\<close>: the base dataset alone.\<close>

definition getAllParts :: "remote \<Rightarrow> json" where
  "getAllParts remote =
     (case remote (Query ''material_summary_2025'' None None) of
        Inl e \<Rightarrow> JObj []
      | Inr v \<Rightarrow> js_or v (JObj []))"

text \<open>
  \<^verbatim>\<open>getAllParts\<close> of the revision that also reads the admin overrides (second
  \<^verbatim>\<open>FirebaseService\<close> in \<^verbatim>\<open>pdf.ts\<close>). \<open>collect_records\<close> is the loop that fills
  \<^verbatim>\<open>baseParts\<close> and \<^verbatim>\<open>adminParts\<close>; \<open>spread\<close> is \<^verbatim>\<open>{...target, ...source}\<close>.
  Both reads are awaited together, so a fault of either one ends in the handler. In the
  file the line that opens the handler is missing; the two statements that follow
  \<^verbatim>\<open>return merged\<close> are its body, as in the other revisions: log, return \<^verbatim>\<open>{}\<close>.
\<close>

definition collect_step :: "string \<times> json \<Rightarrow> (string \<times> json) list \<Rightarrow> (string \<times> json) list" where
  "collect_step entry acc =
     (case entry of (material, part) \<Rightarrow>
        if isRecord part then AList.update material part acc else acc)"

definition collect_records :: "json \<Rightarrow> (string \<times> json) list" where
  "collect_records v = (if isRecord v then fold collect_step (Object_entries v) [] else [])"

definition spread :: "(string \<times> json) list \<Rightarrow> (string \<times> json) list \<Rightarrow> (string \<times> json) list" where
  "spread target source = fold (\<lambda>(k, v) acc. AList.update k v acc) source target"

definition merge_step :: "string \<times> json \<Rightarrow> (string \<times> json) list \<Rightarrow> (string \<times> json) list" where
  "merge_step entry merged =
     (case entry of (material, overrides) \<Rightarrow>
        AList.update material
          (JObj (spread
                   (Object_entries (case map_of merged material of Some b \<Rightarrow> b | None \<Rightarrow> JObj []))
                   (Object_entries overrides)))
          merged)"

definition getAllParts_overrides :: "remote \<Rightarrow> json" where
  "getAllParts_overrides remote =
     (case remote (Query ''material_summary_2025'' None None) of
        Inl e \<Rightarrow> JObj []
      | Inr baseVal \<Rightarrow>
          (case remote (Query ''Parts'' None None) of
             Inl e \<Rightarrow> JObj []
           | Inr adminVal \<Rightarrow>
               JObj (fold merge_step (collect_records adminVal) (collect_records baseVal))))"

text \<open>
  The three tests of the \<^verbatim>\<open>searchParts\<close> callback. All three are evaluated before the
  \<^verbatim>\<open>if\<close>, so a throwing one aborts the search even when an earlier one is true.
\<close>

definition search_matches :: "string \<Rightarrow> string \<Rightarrow> json \<Rightarrow> error + bool" where
  "search_matches searchLower material part =
     (let matchesMaterial = str_includes (toLowerCase material) searchLower in
      case get_prop part ''SPRAS_EN'' of
        Inl e \<Rightarrow> Inl e
      | Inr d \<Rightarrow>
          (case lower_text d of
             Inl e \<Rightarrow> Inl e
           | Inr dl \<Rightarrow>
               (case get_prop part ''Supplier_Name'' of
                  Inl e \<Rightarrow> Inl e
                | Inr s \<Rightarrow>
                    (case lower_text s of
                       Inl e \<Rightarrow> Inl e
                     | Inr sl \<Rightarrow>
                         Inr (matchesMaterial \<or> str_includes dl searchLower
                              \<or> str_includes sl searchLower)))))"

text \<open>
  The \<^verbatim>\<open>forEach\<close> of \<^verbatim>\<open>searchParts\<close> with its two mutable locals \<^verbatim>\<open>filtered\<close> and
  \<^verbatim>\<open>count\<close>. Once \<^verbatim>\<open>count >= limit\<close> the callback returns at once for every
  remaining entry. A limit is a number of entries, a natural number, here and in
  \<^verbatim>\<open>limitToFirst\<close>.
\<close>

fun search_loop ::
  "string \<Rightarrow> nat \<Rightarrow> (string \<times> json) list \<Rightarrow> (string \<times> json) list \<Rightarrow> nat
   \<Rightarrow> error + (string \<times> json) list" where
  "search_loop searchLower limit [] filtered count = Inr filtered"
| "search_loop searchLower limit ((material, part) # rest) filtered count =
     (if count \<ge> limit then search_loop searchLower limit rest filtered count
      else case search_matches searchLower material part of
             Inl e \<Rightarrow> Inl e
           | Inr True \<Rightarrow>
               search_loop searchLower limit rest (AList.update material part filtered) (count + 1)
           | Inr False \<Rightarrow> search_loop searchLower limit rest filtered count)"

definition searchParts :: "remote \<Rightarrow> string \<Rightarrow> nat \<Rightarrow> json" where
  "searchParts remote searchTerm limit =
     (if searchTerm = [] then
        (case remote (Query ''material_summary_2025'' None (Some limit)) of
           Inl e \<Rightarrow> JObj []
         | Inr v \<Rightarrow> js_or v (JObj []))
      else
        (case search_loop (toLowerCase searchTerm) limit
                (Object_entries (getAllParts remote)) [] 0 of
           Inl e \<Rightarrow> JObj []
         | Inr filtered \<Rightarrow> JObj filtered))"

text \<open>
  \<^verbatim>\<open>delete data[key]\<close> in strict mode. An array keeps its other indices (a hole is left),
  so the result is given by its remaining entries; the index of a primitive string cannot
  be deleted and the attempt throws.
\<close>

fun delete_prop :: "json \<Rightarrow> string \<Rightarrow> error + json" where
  "delete_prop (JObj kvs) key = Inr (JObj (AList.delete key kvs))"
| "delete_prop (JArr xs) key = Inr (JObj (AList.delete key (indexed 0 xs)))"
| "delete_prop (JStr s) key = Inl TypeError"
| "delete_prop v key = Inr v"

definition cursor_given :: "string option \<Rightarrow> bool" where
  "cursor_given startAfter = (case startAfter of Some s \<Rightarrow> s \<noteq> [] | None \<Rightarrow> False)"

definition getPaginatedParts :: "remote \<Rightarrow> nat \<Rightarrow> string option \<Rightarrow> json" where
  "getPaginatedParts remote limit startAfter =
     (case remote (if cursor_given startAfter
                   then Query ''Parts'' startAfter (Some (limit + 1))
                   else Query ''Parts'' None (Some limit)) of
        Inl e \<Rightarrow> JObj []
      | Inr v \<Rightarrow>
          (let data = js_or v (JObj []) in
           if cursor_given startAfter \<and> length (Object_entries data) > 0 then
             (case Object_entries data of
                (key0, v0) # rest \<Rightarrow>
                  if Some key0 = startAfter then
                    (case delete_prop data key0 of Inl e \<Rightarrow> JObj [] | Inr data' \<Rightarrow> data')
                  else data
              | [] \<Rightarrow> data)
           else data))"

text \<open>
  Modelled from the spec: the remote document store, which is a hosted service and not
  part of the repository. The store is a tree; a read at a path yields the node there;
  \<^verbatim>\<open>limitToFirst(n)\<close> keeps the first \<open>n\<close> children, \<^verbatim>\<open>startAt(k)\<close> is the range query
  with an inclusive start key over children held in key order; an empty selection reads
  as \<^verbatim>\<open>null\<close>.
\<close>

fun node_children :: "json \<Rightarrow> (string \<times> json) list" where
  "node_children (JObj kvs) = kvs"
| "node_children v = []"

definition child :: "json \<Rightarrow> string \<Rightarrow> json" where
  "child node key = (case map_of (node_children node) key of Some v \<Rightarrow> v | None \<Rightarrow> JNull)"

fun lookup_path :: "json \<Rightarrow> string list \<Rightarrow> json" where
  "lookup_path node [] = node"
| "lookup_path node (key # keys) = lookup_path (child node key) keys"

fun split_path_aux :: "string \<Rightarrow> string \<Rightarrow> string list" where
  "split_path_aux seg [] = (if seg = [] then [] else [seg])"
| "split_path_aux seg (c # cs) =
     (if c = CHR ''/'' then (if seg = [] then [] else [seg]) @ split_path_aux [] cs
      else split_path_aux (seg @ [c]) cs)"

definition split_path :: "string \<Rightarrow> string list" where
  "split_path path = split_path_aux [] path"

definition store_read :: "json \<Rightarrow> remote" where
  "store_read tree q =
     (let node = lookup_path tree (split_path (q_path q)) in
      if q_startAt q = None \<and> q_limit q = None then Inr node
      else
        (let ranged = (case q_startAt q of
                       None \<Rightarrow> node_children node
                     | Some s \<Rightarrow> dropWhile (\<lambda>(k, v). k < s) (node_children node));
             sel = (case q_limit q of None \<Rightarrow> ranged | Some n \<Rightarrow> take n ranged)
         in Inr (if sel = [] then JNull else JObj sel)))"

text \<open>
  Vocabulary for stating what a search result contains: the text of a field of an entry
  (empty when the field is absent or not a string), and containment of a term in a text
  regardless of letter case.
\<close>

definition entry_text :: "json \<Rightarrow> string \<Rightarrow> string" where
  "entry_text part name = (case get_prop part name of Inr (JStr s) \<Rightarrow> s | _ \<Rightarrow> [])"

definition contains_ci :: "string \<Rightarrow> string \<Rightarrow> bool" where
  "contains_ci s t = sublist (toLowerCase t) (toLowerCase s)"

definition entry_matches :: "string \<Rightarrow> string \<times> json \<Rightarrow> bool" where
  "entry_matches searchTerm entry =
     (case entry of (material, part) \<Rightarrow>
        contains_ci material searchTerm
      \<or> contains_ci (entry_text part ''SPRAS_EN'') searchTerm
      \<or> contains_ci (entry_text part ''Supplier_Name'') searchTerm)"

section \<open>Image URLs and the document renderer\<close>

text \<open>
  \<^verbatim>\<open>encodeURIComponent\<close> on a byte string: the unreserved characters are kept, every other
  byte becomes \<^verbatim>\<open>%XX\<close>.
\<close>

definition unreserved :: "char \<Rightarrow> bool" where
  "unreserved c =
     (c \<in> set ''ABCDEFGHIJKLMNOPQRSTUVWXYZabcdefghijklmnopqrstuvwxyz0123456789-_.!~*()''
      \<or> c = CHR 0x27)"

definition hex_digit :: "nat \<Rightarrow> char" where
  "hex_digit n = ''0123456789ABCDEF'' ! n"

definition encode_char :: "char \<Rightarrow> string" where
  "encode_char c =
     (if unreserved c then [c]
      else [CHR ''%'', hex_digit ((of_char c :: nat) div 16), hex_digit ((of_char c :: nat) mod 16)])"

definition encodeURIComponent :: "string \<Rightarrow> string" where
  "encodeURIComponent s = concat (map encode_char s)"

definition storage_baseUrl :: string where
  "storage_baseUrl = ''https://firebasestorage.googleapis.com/v0/b/partssr.firebasestorage.app/o/''"

definition getPartImageUrlWithFallback :: "string \<Rightarrow> string list" where
  "getPartImageUrlWithFallback material =
     [ storage_baseUrl @ encodeURIComponent material @ ''.png?alt=media'',
       storage_baseUrl @ encodeURIComponent material @ ''.jpg?alt=media'',
       storage_baseUrl @ encodeURIComponent material @ ''.webp?alt=media'' ]"

text \<open>
  The part of the application record that the image step of \<^verbatim>\<open>generateEnglishPage\<close>
  reads, and the list \<^verbatim>\<open>imageUrls\<close> it builds.
\<close>

record pdf_application =
  ticket_id :: string
  image_url :: "string option"

definition imageUrls :: "pdf_application \<Rightarrow> string list" where
  "imageUrls application =
     (case image_url application of
        Some u \<Rightarrow> if u \<noteq> [] then [u] else []
      | None \<Rightarrow> [])
     @ [ ''https://firebasestorage.googleapis.com/v0/b/parts-catalogue-mgx.appspot.com/o/part-applications%2F''
           @ ticket_id application @ ''.jpg?alt=media'',
         ''https://firebasestorage.googleapis.com/v0/b/parts-catalogue-mgx.appspot.com/o/part-applications%2F''
           @ ticket_id application @ ''.png?alt=media'' ]"

text \<open>
  The loop \<^verbatim>\<open>for (const imageUrl of imageUrls)\<close>. \<open>loads u\<close> says that the promise for
  \<open>u\<close> resolves to \<^verbatim>\<open>true\<close> (the image loaded and its handler ran through). The result is the list of
  URLs tried, in order, and the URL whose image was embedded, if any.
\<close>

fun embed_image_loop :: "(string \<Rightarrow> bool) \<Rightarrow> string list \<Rightarrow> string list \<times> string option" where
  "embed_image_loop loads [] = ([], None)"
| "embed_image_loop loads (imageUrl # rest) =
     (if loads imageUrl then ([imageUrl], Some imageUrl)
      else (case embed_image_loop loads rest of (tried, embedded) \<Rightarrow> (imageUrl # tried, embedded)))"

definition embed_image :: "(string \<Rightarrow> bool) \<Rightarrow> pdf_application \<Rightarrow> string list \<times> string option" where
  "embed_image loads application = embed_image_loop loads (imageUrls application)"

text \<open>
  The candidate order as the specification words it: the stored URL, then the fallback
  chain \<^verbatim>\<open>.png\<close>, \<^verbatim>\<open>.jpg\<close>, \<^verbatim>\<open>.webp\<close> against the blob store's public base.
\<close>

definition specified_candidates :: "pdf_application \<Rightarrow> string list" where
  "specified_candidates application =
     (case image_url application of
        Some u \<Rightarrow> if u \<noteq> [] then [u] else []
      | None \<Rightarrow> [])
     @ getPartImageUrlWithFallback (ticket_id application)"

definition never_loads :: "string \<Rightarrow> bool" where
  "never_loads u = False"

definition sample_pdf_application :: pdf_application where
  "sample_pdf_application =
     \<lparr> ticket_id = ''APP0001'', image_url = Some ''https://example.test/stored.png'' \<rparr>"

section \<open>Remote services with faults\<close>

text \<open>
  The workflow writes to the document store and to the blob store. Both are external; the
  state they hold and every call made to them is explicit. \<open>faults w n\<close> says that
  the \<open>n\<close>-th remote call made in this world fails, so any pattern of failures can be
  injected; \<open>calls\<close> records each call with its outcome, in order. Writing a value at
  a path replaces the node there (\<open>update_path\<close>).
\<close>

datatype call =
    DbGet string
  | DbSet string
  | StorageUpload string
  | StorageGetDownloadURL string
  | StorageDelete string
  | HttpFetch string

record world =
  store :: json
  blobs :: "(string \<times> string) list"
  faults :: "nat \<Rightarrow> bool"
  calls :: "(call \<times> bool) list"

fun update_path :: "json \<Rightarrow> string list \<Rightarrow> json \<Rightarrow> json" where
  "update_path node [] v = v"
| "update_path node (key # keys) v =
     JObj (AList.update key (update_path (child node key) keys v) (node_children node))"

definition remote_ok :: "world \<Rightarrow> bool" where
  "remote_ok w = (\<not> faults w (length (calls w)))"

definition record_call :: "world \<Rightarrow> call \<Rightarrow> bool \<Rightarrow> world" where
  "record_call w c ok = w\<lparr>calls := calls w @ [(c, ok)]\<rparr>"

text \<open>
  \<^verbatim>\<open>ref(database, path)\<close> checks the path before anything is sent: it throws for an
  empty path and for a path that holds one of \<^verbatim>\<open>. # $ [ ]\<close> or a control character.
\<close>

definition invalid_path_char :: "char \<Rightarrow> bool" where
  "invalid_path_char c =
     (c \<in> set ''.#$[]'' \<or> (of_char c :: nat) < 32 \<or> (of_char c :: nat) = 127)"

definition valid_path :: "string \<Rightarrow> bool" where
  "valid_path path = (path \<noteq> [] \<and> list_all (\<lambda>c. \<not> invalid_path_char c) path)"

text \<open>
  \<^verbatim>\<open>await get(ref(database, path))\<close> with \<^verbatim>\<open>snapshot.val()\<close>. A path that \<^verbatim>\<open>ref\<close>
  refuses ends the operation with no call made.
\<close>

definition db_get :: "world \<Rightarrow> string \<Rightarrow> (error + json) \<times> world" where
  "db_get w path =
     (if \<not> valid_path path then (Inl InvalidPath, w)
      else if remote_ok w
      then (Inr (lookup_path (store w) (split_path path)), record_call w (DbGet path) True)
      else (Inl RemoteFault, record_call w (DbGet path) False))"

text \<open>
  \<^verbatim>\<open>await set(ref(database, path), v)\<close>. A write that the client library turns down for
  its size or depth is a failed call like any other: it is one of the faults.
\<close>

definition db_set :: "world \<Rightarrow> string \<Rightarrow> json \<Rightarrow> (error + unit) \<times> world" where
  "db_set w path v =
     (if \<not> valid_path path then (Inl InvalidPath, w)
      else if remote_ok w
      then (Inr (),
            record_call (w\<lparr>store := update_path (store w) (split_path path) v\<rparr>) (DbSet path) True)
      else (Inl RemoteFault, record_call w (DbSet path) False))"

text \<open>
  The download URL issued for a blob key. It has the public shape of
  \<^verbatim>\<open>getPartImageUrl\<close>; the access token of a real URL is left out.
\<close>

definition download_url :: "string \<Rightarrow> string" where
  "download_url key = storage_baseUrl @ encodeURIComponent key @ ''?alt=media''"

text \<open>\<^verbatim>\<open>await uploadBytes(storageRef(storage, key), blob)\<close>.\<close>

definition storage_upload :: "world \<Rightarrow> string \<Rightarrow> string \<Rightarrow> (error + unit) \<times> world" where
  "storage_upload w key blob =
     (if remote_ok w
      then (Inr (),
            record_call (w\<lparr>blobs := AList.update key blob (blobs w)\<rparr>) (StorageUpload key) True)
      else (Inl RemoteFault, record_call w (StorageUpload key) False))"

text \<open>\<^verbatim>\<open>await getDownloadURL(ref)\<close>: fails as well when no blob is stored under the key.\<close>

definition storage_getDownloadURL :: "world \<Rightarrow> string \<Rightarrow> (error + string) \<times> world" where
  "storage_getDownloadURL w key =
     (if remote_ok w \<and> map_of (blobs w) key \<noteq> None
      then (Inr (download_url key), record_call w (StorageGetDownloadURL key) True)
      else (Inl RemoteFault, record_call w (StorageGetDownloadURL key) False))"

text \<open>\<^verbatim>\<open>await deleteObject(ref)\<close>: fails as well when no blob is stored under the key.\<close>

definition storage_delete :: "world \<Rightarrow> string \<Rightarrow> (error + unit) \<times> world" where
  "storage_delete w key =
     (if remote_ok w \<and> map_of (blobs w) key \<noteq> None
      then (Inr (),
            record_call (w\<lparr>blobs := AList.delete key (blobs w)\<rparr>) (StorageDelete key) True)
      else (Inl RemoteFault, record_call w (StorageDelete key) False))"

text \<open>
  \<^verbatim>\<open>await fetch(url)\<close> followed by \<^verbatim>\<open>resp.blob()\<close>, for a URL issued by the blob store:
  the bytes of the blob the URL addresses. A URL that addresses no blob counts as a failed
  fetch; \<^verbatim>\<open>renamePartApplicationImage\<close> only fetches a URL just issued for a stored blob.
\<close>

definition http_fetch :: "world \<Rightarrow> string \<Rightarrow> (error + string) \<times> world" where
  "http_fetch w url =
     (case (if remote_ok w then List.find (\<lambda>(key, blob). download_url key = url) (blobs w)
            else None) of
        Some (key, blob) \<Rightarrow> (Inr blob, record_call w (HttpFetch url) True)
      | None \<Rightarrow> (Inl RemoteFault, record_call w (HttpFetch url) False))"

section \<open>Application workflow\<close>

text \<open>
  The legacy collection \<^verbatim>\<open>partApplications\<close> and the page that drives it
  (\<^verbatim>\<open>PartApplicationPage\<close>, second component in \<^verbatim>\<open>take-photo.tsx\<close>). The record follows
  the page's \<^verbatim>\<open>PartApplication\<close> interface; its \<^verbatim>\<open>id\<close>, \<^verbatim>\<open>notes\<close> and \<^verbatim>\<open>partCode\<close>
  are named \<open>app_id\<close>, \<open>app_notes\<close> and \<open>app_partCode\<close> here.
\<close>

record PartApplication =
  app_id :: string
  requestedBy :: string
  department :: string
  priority :: string
  specifications :: string
  supplier :: string
  standardPrice :: string
  app_notes :: string
  submittedAt :: string
  status :: string
  imageUrl :: "string option"
  app_partCode :: "string option"

record form_data =
  form_requestedBy :: string
  form_department :: string
  form_priority :: string
  form_specifications :: string
  form_supplier :: string
  form_standardPrice :: string
  form_notes :: string

datatype banner = SuccessBanner string | ErrorBanner string

text \<open>
  The React state of the page that the handlers read and write. \<open>approveDialog\<close> holds
  the dialog's application (\<open>None\<close> for the closed dialog).
\<close>

record page_state =
  applications :: "PartApplication list"
  message :: "banner option"
  selectedFile :: "string option"
  approveDialog :: "PartApplication option"
  partCode :: string
  formData :: form_data
  isSubmitting :: bool

text \<open>\<^verbatim>\<open>String.prototype.trim\<close> over the ASCII white space, \<^verbatim>\<open>padStart\<close>.\<close>

definition is_space :: "char \<Rightarrow> bool" where
  "is_space c = (c \<in> {CHR '' '', CHR 0x09, CHR 0x0A, CHR 0x0B, CHR 0x0C, CHR 0x0D})"

definition trim :: "string \<Rightarrow> string" where
  "trim s = rev (dropWhile is_space (rev (dropWhile is_space s)))"

definition padStart :: "nat \<Rightarrow> char \<Rightarrow> string \<Rightarrow> string" where
  "padStart n c s = replicate (n - length s) c @ s"

definition text_of :: "(string \<times> json) list \<Rightarrow> string \<Rightarrow> string" where
  "text_of obj name = (case map_of obj name of Some (JStr s) \<Rightarrow> s | _ \<Rightarrow> [])"

definition opt_text_of :: "(string \<times> json) list \<Rightarrow> string \<Rightarrow> string option" where
  "opt_text_of obj name = (case map_of obj name of Some (JStr s) \<Rightarrow> Some s | _ \<Rightarrow> None)"

text \<open>The element \<^verbatim>\<open>{ id: key, ...data[key] }\<close> of \<^verbatim>\<open>getPartApplications\<close>, read at the
  interface's types.\<close>

definition application_of :: "string \<times> json \<Rightarrow> PartApplication" where
  "application_of entry =
     (case entry of (key, v) \<Rightarrow>
        (let obj = spread [(''id'', JStr key)] (Object_entries v) in
         \<lparr> app_id = text_of obj ''id'',
           requestedBy = text_of obj ''requestedBy'',
           department = text_of obj ''department'',
           priority = text_of obj ''priority'',
           specifications = text_of obj ''specifications'',
           supplier = text_of obj ''supplier'',
           standardPrice = text_of obj ''standardPrice'',
           app_notes = text_of obj ''notes'',
           submittedAt = text_of obj ''submittedAt'',
           status = text_of obj ''status'',
           imageUrl = opt_text_of obj ''imageUrl'',
           app_partCode = opt_text_of obj ''partCode'' \<rparr>))"

definition getPartApplications :: "world \<Rightarrow> PartApplication list \<times> world" where
  "getPartApplications w =
     (case db_get w ''partApplications'' of
        (Inl e, w1) \<Rightarrow> ([], w1)
      | (Inr data, w1) \<Rightarrow>
          if data \<noteq> JNull then (map application_of (Object_entries data), w1) else ([], w1))"

text \<open>
  \<^verbatim>\<open>savePartApplication\<close>: the ten listed fields are written. \<^verbatim>\<open>set\<close> rejects a value
  with an \<^verbatim>\<open>undefined\<close> property before any request is made.
\<close>

definition savePartApplication :: "world \<Rightarrow> PartApplication \<Rightarrow> (error + unit) \<times> world" where
  "savePartApplication w application =
     (case imageUrl application of
        None \<Rightarrow> (Inl InvalidValue, w)
      | Some url \<Rightarrow>
          db_set w (''partApplications/'' @ app_id application)
            (JObj [ (''requestedBy'', JStr (requestedBy application)),
                    (''department'', JStr (department application)),
                    (''priority'', JStr (priority application)),
                    (''specifications'', JStr (specifications application)),
                    (''supplier'', JStr (supplier application)),
                    (''standardPrice'', JStr (standardPrice application)),
                    (''notes'', JStr (app_notes application)),
                    (''submittedAt'', JStr (submittedAt application)),
                    (''status'', JStr (status application)),
                    (''imageUrl'', JStr url) ]))"

text \<open>\<^verbatim>\<open>approvePartApplication\<close>; \<open>now\<close> is \<^verbatim>\<open>new Date().toISOString()\<close>.\<close>

definition approvePartApplication ::
  "world \<Rightarrow> string \<Rightarrow> string \<Rightarrow> string \<Rightarrow> (error + unit) \<times> world" where
  "approvePartApplication w applicationId code now =
     (case db_get w (''partApplications/'' @ applicationId) of
        (Inl e, w1) \<Rightarrow> (Inl e, w1)
      | (Inr currentData, w1) \<Rightarrow>
          if currentData \<noteq> JNull then
            db_set w1 (''partApplications/'' @ applicationId)
              (JObj (spread (Object_entries currentData)
                       [ (''status'', JStr ''approved''),
                         (''partCode'', JStr code),
                         (''approvedAt'', JStr now) ]))
          else (Inr (), w1))"

definition uploadPartApplicationImage ::
  "world \<Rightarrow> string \<Rightarrow> string \<Rightarrow> (error + string) \<times> world" where
  "uploadPartApplicationImage w file applicationId =
     (case storage_upload w (applicationId @ ''.png'') file of
        (Inl e, w1) \<Rightarrow> (Inl e, w1)
      | (Inr u, w1) \<Rightarrow> storage_getDownloadURL w1 (applicationId @ ''.png''))"

text \<open>
  \<^verbatim>\<open>renamePartApplicationImage\<close> of \<^verbatim>\<open>firebase.ts\<close>: copy, delete the old blob (a failure
  of the delete is swallowed by its own \<^verbatim>\<open>try\<close>), repoint the record. Any other failure
  is logged and thrown again.
\<close>

definition renamePartApplicationImage ::
  "world \<Rightarrow> string \<Rightarrow> string \<Rightarrow> (error + unit) \<times> world" where
  "renamePartApplicationImage w applicationId code =
     (case storage_getDownloadURL w (applicationId @ ''.png'') of
        (Inl e, w1) \<Rightarrow> (Inl e, w1)
      | (Inr oldUrl, w1) \<Rightarrow>
     (case http_fetch w1 oldUrl of
        (Inl e, w2) \<Rightarrow> (Inl e, w2)
      | (Inr blob, w2) \<Rightarrow>
     (case storage_upload w2 (code @ ''.png'') blob of
        (Inl e, w3) \<Rightarrow> (Inl e, w3)
      | (Inr u, w3) \<Rightarrow>
     (case storage_delete w3 (applicationId @ ''.png'') of
        (deleted, w4) \<Rightarrow>
     (case storage_getDownloadURL w4 (code @ ''.png'') of
        (Inl e, w5) \<Rightarrow> (Inl e, w5)
      | (Inr newUrl, w5) \<Rightarrow>
     (case db_get w5 (''partApplications/'' @ applicationId) of
        (Inl e, w6) \<Rightarrow> (Inl e, w6)
      | (Inr current, w6) \<Rightarrow>
          if current \<noteq> JNull then
            db_set w6 (''partApplications/'' @ applicationId)
              (JObj (spread (Object_entries current) [(''imageUrl'', JStr newUrl)]))
          else
            db_set w6 (''partApplications/'' @ applicationId)
              (JObj [(''imageUrl'', JStr newUrl)])))))))"

definition loadApplications :: "page_state \<Rightarrow> world \<Rightarrow> page_state \<times> world" where
  "loadApplications ui w =
     (case getPartApplications w of (apps, w1) \<Rightarrow> (ui\<lparr>applications := apps\<rparr>, w1))"

definition generateApplicationId :: "page_state \<Rightarrow> string" where
  "generateApplicationId ui =
     ''APP'' @ padStart 4 (CHR ''0'') (string_of_nat (length (applications ui) + 1))"

definition resetForm :: "page_state \<Rightarrow> page_state" where
  "resetForm ui =
     ui\<lparr> formData := \<lparr> form_requestedBy = '''', form_department = '''',
                        form_priority = ''medium'', form_specifications = '''',
                        form_supplier = '''', form_standardPrice = '''', form_notes = '''' \<rparr>,
         selectedFile := None \<rparr>"

definition showMessage :: "page_state \<Rightarrow> banner \<Rightarrow> page_state" where
  "showMessage ui b = ui\<lparr>message := Some b\<rparr>"

text \<open>\<^verbatim>\<open>handleSubmit\<close>; \<open>now\<close> is \<^verbatim>\<open>new Date().toISOString()\<close>.\<close>

definition handleSubmit :: "page_state \<Rightarrow> world \<Rightarrow> string \<Rightarrow> page_state \<times> world" where
  "handleSubmit ui w now =
     (if form_requestedBy (formData ui) = [] \<or> form_department (formData ui) = []
         \<or> form_specifications (formData ui) = [] \<or> form_supplier (formData ui) = []
         \<or> form_standardPrice (formData ui) = []
      then (showMessage ui (ErrorBanner ''Please fill in all required fields''), w)
      else case selectedFile ui of
        None \<Rightarrow> (showMessage ui (ErrorBanner ''Please upload an image''), w)
      | Some file \<Rightarrow>
          (let applicationId = generateApplicationId ui in
           case uploadPartApplicationImage w file applicationId of
             (Inl e, w1) \<Rightarrow>
               ((showMessage ui (ErrorBanner ''Failed to submit part application''))
                  \<lparr>isSubmitting := False\<rparr>, w1)
           | (Inr url, w1) \<Rightarrow>
               (let newApplication =
                      \<lparr> app_id = applicationId,
                        requestedBy = form_requestedBy (formData ui),
                        department = form_department (formData ui),
                        priority = form_priority (formData ui),
                        specifications = form_specifications (formData ui),
                        supplier = form_supplier (formData ui),
                        standardPrice = form_standardPrice (formData ui),
                        app_notes = form_notes (formData ui),
                        submittedAt = now,
                        status = ''pending'',
                        imageUrl = Some url,
                        app_partCode = None \<rparr>
                in case savePartApplication w1 newApplication of
                     (Inl e, w2) \<Rightarrow>
                       ((showMessage ui (ErrorBanner ''Failed to submit part application''))
                          \<lparr>isSubmitting := False\<rparr>, w2)
                   | (Inr u, w2) \<Rightarrow>
                       (case loadApplications ui w2 of
                          (ui3, w3) \<Rightarrow>
                            ((resetForm
                                (showMessage ui3
                                   (SuccessBanner (''Part application '' @ applicationId
                                                   @ '' submitted successfully!''))))
                               \<lparr>isSubmitting := False\<rparr>, w3)))))"

text \<open>\<^verbatim>\<open>handleApprove\<close>: both service calls sit in one \<^verbatim>\<open>try\<close>.\<close>

definition handleApprove :: "page_state \<Rightarrow> world \<Rightarrow> string \<Rightarrow> page_state \<times> world" where
  "handleApprove ui w now =
     (case approveDialog ui of
        None \<Rightarrow> (showMessage ui (ErrorBanner ''Please enter a part code''), w)
      | Some application \<Rightarrow>
          if trim (partCode ui) = [] then
            (showMessage ui (ErrorBanner ''Please enter a part code''), w)
          else
            (case approvePartApplication w (app_id application) (trim (partCode ui)) now of
               (Inl e, w1) \<Rightarrow>
                 ((showMessage ui (ErrorBanner ''Failed to approve application''))
                    \<lparr>isSubmitting := False\<rparr>, w1)
             | (Inr u, w1) \<Rightarrow>
                 (case (case imageUrl application of
                          Some url \<Rightarrow>
                            if url \<noteq> [] then
                              renamePartApplicationImage w1 (app_id application)
                                (trim (partCode ui))
                            else (Inr (), w1)
                        | None \<Rightarrow> (Inr (), w1)) of
                    (Inl e, w2) \<Rightarrow>
                      ((showMessage ui (ErrorBanner ''Failed to approve application''))
                         \<lparr>isSubmitting := False\<rparr>, w2)
                  | (Inr u2, w2) \<Rightarrow>
                      (case loadApplications ui w2 of
                         (ui3, w3) \<Rightarrow>
                           ((showMessage ui3
                               (SuccessBanner (''Application '' @ app_id application
                                               @ '' approved with part code '' @ partCode ui)))
                              \<lparr> approveDialog := None, partCode := '''',
                                isSubmitting := False \<rparr>, w3)))))"

text \<open>
  A property of a sequence of recorded calls: every occurrence of the call \<open>del\<close> comes
  after a successful occurrence of the call \<open>up\<close>.
\<close>

fun only_after_success :: "call \<Rightarrow> call \<Rightarrow> (call \<times> bool) list \<Rightarrow> bool" where
  "only_after_success del up [] = True"
| "only_after_success del up ((c, ok) # rest) =
     (if c = up \<and> ok then True
      else if c = del then False
      else only_after_success del up rest)"

text \<open>
  A pending application with an image, the page with the approve dialog open on it and the
  part code \<^verbatim>\<open>PC-100\<close> entered, and a world whose blob store fails: the third remote
  call, which is the first one made to the blob store, faults.
\<close>

definition pending_application :: json where
  "pending_application =
     JObj [ (''requestedBy'', JStr ''Kim''), (''department'', JStr ''Service''),
            (''priority'', JStr ''medium''), (''specifications'', JStr ''M8 bolt''),
            (''supplier'', JStr ''Acme''), (''standardPrice'', JStr ''1.20''),
            (''notes'', JStr ''''), (''submittedAt'', JStr ''2025-01-01T00:00:00.000Z''),
            (''status'', JStr ''pending''),
            (''imageUrl'', JStr (download_url ''APP0001.png'')) ]"

definition sample_world :: world where
  "sample_world =
     \<lparr> store = JObj [(''partApplications'', JObj [(''APP0001'', pending_application)])],
       blobs = [(''APP0001.png'', ''image-bytes'')],
       faults = (\<lambda>n. False),
       calls = [] \<rparr>"

definition failing_blob_store_world :: world where
  "failing_blob_store_world = sample_world\<lparr>faults := (\<lambda>n. n = 2)\<rparr>"


definition sample_page :: page_state where
  "sample_page =
     \<lparr> applications = [application_of (''APP0001'', pending_application)],
       message = None,
       selectedFile = Some ''new-image-bytes'',
       approveDialog = Some (application_of (''APP0001'', pending_application)),
       partCode = ''PC-100'',
       formData = \<lparr> form_requestedBy = ''Lee'', form_department = ''Workshop'',
                    form_priority = ''high'', form_specifications = ''Hinge, left'',
                    form_supplier = ''Acme'', form_standardPrice = ''4.50'',
                    form_notes = '''' \<rparr>,
       isSubmitting = False \<rparr>"

definition failing_read_world :: world where
  "failing_read_world = sample_world\<lparr>faults := (\<lambda>n. n = 0)\<rparr>"

text \<open>
  A store in which the part \<^verbatim>\<open>A100\<close> has a base entry and an admin override, and a
  bill of materials whose child \<^verbatim>\<open>B200\<close> is a list (a node with children \<^verbatim>\<open>0\<close> and
  \<^verbatim>\<open>1\<close> reads as an array) and whose child \<^verbatim>\<open>C300\<close> is a leaf.
\<close>

definition overridden_store :: json where
  "overridden_store =
     JObj [ (''material_summary_2025'',
               JObj [(''A100'', JObj [(''SPRAS_EN'', JStr ''Pump''), (''notes'', JStr ''old'')])]),
            (''Parts'',
               JObj [(''A100'', JObj [(''notes'', JStr ''new''), (''year'', JStr ''2024'')])]) ]"

definition bom_with_array_child :: remote where
  "bom_with_array_child q =
     Inr (JObj [ (''A100'', JObj [(''Component_Description'', JStr ''Hinge''),
                                  (''Standard_Price'', JNum 5)]),
                 (''B200'', JArr [JStr ''x'', JStr ''y'']),
                 (''C300'', JStr ''leaf'') ])"

text \<open>The value \<^verbatim>\<open>renamePartApplicationImage\<close> writes back over the record it read.\<close>

definition repointed :: "json \<Rightarrow> string \<Rightarrow> json" where
  "repointed current url =
     (if current \<noteq> JNull then JObj (spread (Object_entries current) [(''imageUrl'', JStr url)])
      else JObj [(''imageUrl'', JStr url)])"

section \<open>Properties of the bill-of-materials reader\<close>

lemma map_of_fold_bom_step:
  "distinct (map fst es) \<Longrightarrow>
   map_of (fold bom_step es acc) k =
     (case map_of es k of
        Some v \<Rightarrow> if truthy v \<and> typeof_object v then Some (bom_component k v) else map_of acc k
      | None \<Rightarrow> map_of acc k)"
proof (induction es arbitrary: acc)
  case Nil
  then show ?case by simp
next
  case (Cons e es)
  obtain m c where e: "e = (m, c)" by (cases e)
  have d: "distinct (map fst es)" and m: "m \<notin> fst ` set es"
    using Cons.prems(1) e by auto
  have none: "map_of es m = None" using m by (simp add: map_of_eq_None_iff)
  show ?case
    using Cons.IH [OF d, of "bom_step e acc"] e none
    by (auto simp: bom_step_def AList.update_conv' split: option.splits)
qed

lemma Object_entries_falsy: "\<not> truthy data \<Longrightarrow> Object_entries data = []"
  by (cases data) auto

text \<open>
  A child that is a list is not a record (\<^verbatim>\<open>isRecord\<close> refuses arrays), yet it passes
  \<^verbatim>\<open>componentData && typeof componentData === 'object'\<close> and gets a component made of
  the defaults, so the components are not exactly those of the record children.
\<close>

theorem getBoMComponents_array_child_counterexample:
  "\<not> isRecord (JArr [JStr ''x'', JStr ''y''])
   \<and> map_of (getBoMComponents bom_with_array_child ''SRC19'') ''B200''
       = Some \<lparr> Component_Material = ''B200'', Component_Description = JStr '''',
                Standard_Price = JNum 0, Supplier = JStr '''' \<rparr>"
  by (simp add: getBoMComponents_def bom_with_array_child_def bom_step_def bom_component_def
        read_prop_def js_or_def)

lemma js_or_stored:
  "js_or (read_prop (JObj kvs) name) dflt
     = (case map_of kvs name of Some d \<Rightarrow> if truthy d then d else dflt | None \<Rightarrow> dflt)"
  by (simp add: js_or_def read_prop_def split: option.splits)

lemma js_or_array: "js_or (read_prop (JArr xs) name) dflt = dflt"
  by (simp add: js_or_def read_prop_def)

text \<open>
  C8, with the test the code applies. For every model key and every stored subtree that
  the read returns, \<^verbatim>\<open>getBoMComponents\<close> holds an entry for exactly the children whose
  value is an object or an array. The entry of an object child carries the child's key,
  its stored description, price and supplier where these are present and truthy, and
  otherwise the empty string, zero and the empty string; the entry of an array child
  carries the key and the three defaults. Every other child is skipped and does not
  disturb the rest. The function has no failing outcome: its result is always a mapping.
\<close>

theorem getBoMComponents_projects_objects:
  assumes "remote (Query (''BoM/'' @ modelWithMY) None None) = Inr data"
      and "distinct (map fst (Object_entries data))"
  shows "map_of (getBoMComponents remote modelWithMY) materialCode =
           (case map_of (Object_entries data) materialCode of
              None \<Rightarrow> None
            | Some (JObj kvs) \<Rightarrow>
                Some \<lparr> Component_Material = materialCode,
                       Component_Description =
                         (case map_of kvs ''Component_Description'' of
                            Some d \<Rightarrow> if truthy d then d else JStr ''''
                          | None \<Rightarrow> JStr ''''),
                       Standard_Price =
                         (case map_of kvs ''Standard_Price'' of
                            Some p \<Rightarrow> if truthy p then p else JNum 0
                          | None \<Rightarrow> JNum 0),
                       Supplier =
                         (case map_of kvs ''Supplier'' of
                            Some s \<Rightarrow> if truthy s then s else JStr ''''
                          | None \<Rightarrow> JStr '''') \<rparr>
            | Some (JArr xs) \<Rightarrow>
                Some \<lparr> Component_Material = materialCode, Component_Description = JStr '''',
                       Standard_Price = JNum 0, Supplier = JStr '''' \<rparr>
            | Some other \<Rightarrow> None)"
proof -
  have res: "map_of (getBoMComponents remote modelWithMY) materialCode =
          (case map_of (Object_entries data) materialCode of
             Some v \<Rightarrow> if truthy v \<and> typeof_object v then Some (bom_component materialCode v)
                       else None
           | None \<Rightarrow> None)"
  proof (cases "truthy data")
    case True
    then show ?thesis
      using assms
      by (simp add: getBoMComponents_def map_of_fold_bom_step split: option.splits)
  next
    case False
    then show ?thesis
      using assms(1) by (simp add: getBoMComponents_def Object_entries_falsy)
  qed
  show ?thesis
  proof (cases "map_of (Object_entries data) materialCode")
    case None
    then show ?thesis by (simp add: res)
  next
    case (Some v)
    then show ?thesis
      by (cases v) (simp_all add: res bom_component_def js_or_stored js_or_array)
  qed
qed

theorem getBoMComponents_projects_objects_witness:
  "map_of (getBoMComponents bom_with_array_child ''SRC19'') ''A100''
     = Some \<lparr> Component_Material = ''A100'', Component_Description = JStr ''Hinge'',
              Standard_Price = JNum 5, Supplier = JStr '''' \<rparr>
   \<and> map_of (getBoMComponents bom_with_array_child ''SRC19'') ''C300'' = None"
  using getBoMComponents_projects_objects
      [of bom_with_array_child "''SRC19''"
          "JObj [ (''A100'', JObj [(''Component_Description'', JStr ''Hinge''),
                                  (''Standard_Price'', JNum 5)]),
                 (''B200'', JArr [JStr ''x'', JStr ''y'']),
                 (''C300'', JStr ''leaf'') ]" "''A100''"]
    getBoMComponents_projects_objects
      [of bom_with_array_child "''SRC19''"
          "JObj [ (''A100'', JObj [(''Component_Description'', JStr ''Hinge''),
                                  (''Standard_Price'', JNum 5)]),
                 (''B200'', JArr [JStr ''x'', JStr ''y'']),
                 (''C300'', JStr ''leaf'') ]" "''C300''"]
  by (simp add: bom_with_array_child_def)

section \<open>Properties of the parts repository\<close>

lemma str_includes_iff_sublist: "str_includes s t \<longleftrightarrow> sublist t s"
  by (induction s) (auto simp: sublist_Cons_right)

lemma in_set_update:
  "e \<in> set (AList.update k v al) \<Longrightarrow> e = (k, v) \<or> e \<in> set al"
  by (induction al) (auto split: if_splits)

lemma length_update_le: "length (AList.update k v al) \<le> Suc (length al)"
  by (induction al) auto

lemma lower_text_entry_text:
  "get_prop part name = Inr d \<Longrightarrow> lower_text d = Inr dl \<Longrightarrow>
   dl = toLowerCase (entry_text part name)"
  by (cases d) (auto simp: lower_text_def entry_text_def js_or_def toLowerCase_def split: if_splits)

lemma search_matches_sound:
  assumes "search_matches (toLowerCase searchTerm) material part = Inr True"
  shows "entry_matches searchTerm (material, part)"
proof -
  from assms obtain d dl s sl where
      d: "get_prop part ''SPRAS_EN'' = Inr d" and dl: "lower_text d = Inr dl"
    and s: "get_prop part ''Supplier_Name'' = Inr s" and sl: "lower_text s = Inr sl"
    and m: "str_includes (toLowerCase material) (toLowerCase searchTerm)
            \<or> str_includes dl (toLowerCase searchTerm)
            \<or> str_includes sl (toLowerCase searchTerm)"
    unfolding search_matches_def Let_def by (simp split: sum.splits)
  have "dl = toLowerCase (entry_text part ''SPRAS_EN'')"
    using d dl by (rule lower_text_entry_text)
  moreover have "sl = toLowerCase (entry_text part ''Supplier_Name'')"
    using s sl by (rule lower_text_entry_text)
  ultimately show ?thesis
    using m unfolding entry_matches_def contains_ci_def str_includes_iff_sublist by simp
qed

lemma search_loop_invariant:
  "search_loop (toLowerCase searchTerm) limit es filtered count = Inr r \<Longrightarrow>
   length filtered \<le> count \<Longrightarrow> count \<le> limit \<Longrightarrow>
   \<forall>e \<in> set filtered. entry_matches searchTerm e \<Longrightarrow>
   length r \<le> limit \<and> (\<forall>e \<in> set r. entry_matches searchTerm e)"
proof (induction es arbitrary: filtered count)
  case Nil
  then show ?case by simp
next
  case (Cons entry rest)
  obtain material part where entry: "entry = (material, part)" by (cases entry)
  show ?case
  proof (cases "count \<ge> limit")
    case True
    then have "search_loop (toLowerCase searchTerm) limit rest filtered count = Inr r"
      using Cons.prems(1) entry by simp
    then show ?thesis
      using Cons.prems(2,3,4) by (rule Cons.IH)
  next
    case False
    then obtain b where m: "search_matches (toLowerCase searchTerm) material part = Inr b"
      using Cons.prems(1) entry by (simp split: sum.splits)
    show ?thesis
    proof (cases b)
      case True
      have run: "search_loop (toLowerCase searchTerm) limit rest
                   (AList.update material part filtered) (count + 1) = Inr r"
        using Cons.prems(1) entry False m True by simp
      have len: "length (AList.update material part filtered) \<le> count + 1"
        using length_update_le [of material part filtered] Cons.prems(2) by simp
      have cnt: "count + 1 \<le> limit" using False by simp
      have "entry_matches searchTerm (material, part)"
        using m True by (simp add: search_matches_sound)
      then have inv: "\<forall>e \<in> set (AList.update material part filtered). entry_matches searchTerm e"
        using Cons.prems(4) by (blast dest: in_set_update)
      show ?thesis
        using run len cnt inv by (rule Cons.IH)
    next
      case nomatch: False
      have run: "search_loop (toLowerCase searchTerm) limit rest filtered count = Inr r"
        using Cons.prems(1) entry False m nomatch by simp
      then show ?thesis
        using Cons.prems(2,3,4) by (rule Cons.IH)
    qed
  qed
qed


text \<open>
  C5. For every non-empty search term and every limit, the mapping returned by
  \<^verbatim>\<open>searchParts(term, limit)\<close> has at most \<open>limit\<close> entries, and for every returned
  entry the material code, the English description (\<^verbatim>\<open>SPRAS_EN\<close>) or the supplier name
  (\<^verbatim>\<open>Supplier_Name\<close>) contains the term as a substring, letter case ignored. This holds
  whatever the remote read yields, a fault included.
\<close>

theorem searchParts_bounded_and_matching:
  assumes "searchTerm \<noteq> []"
  shows "length (Object_entries (searchParts remote searchTerm limit)) \<le> limit
       \<and> (\<forall>(material, part) \<in> set (Object_entries (searchParts remote searchTerm limit)).
            contains_ci material searchTerm
          \<or> contains_ci (entry_text part ''SPRAS_EN'') searchTerm
          \<or> contains_ci (entry_text part ''Supplier_Name'') searchTerm)"
proof (cases "search_loop (toLowerCase searchTerm) limit (Object_entries (getAllParts remote)) [] 0")
  case (Inl e)
  then show ?thesis using assms by (simp add: searchParts_def)
next
  case (Inr filtered)
  then have res: "searchParts remote searchTerm limit = JObj filtered"
    using assms by (simp add: searchParts_def)
  have "length filtered \<le> limit \<and> (\<forall>e \<in> set filtered. entry_matches searchTerm e)"
    using Inr by (rule search_loop_invariant) simp_all
  then show ?thesis
    unfolding res by (auto simp: entry_matches_def)
qed

theorem searchParts_bounded_and_matching_witness:
  "searchParts
     (\<lambda>q. Inr (JObj [(''A100'', JObj [(''SPRAS_EN'', JStr ''Blue Pump'')]),
                       (''B200'', JObj [(''SPRAS_EN'', JStr ''Valve'')]),
                       (''C300'', JObj [(''Supplier_Name'', JStr ''PUMPCO'')])]))
     ''pump'' 1
   = JObj [(''A100'', JObj [(''SPRAS_EN'', JStr ''Blue Pump'')])]
   \<and> contains_ci (entry_text (JObj [(''SPRAS_EN'', JStr ''Blue Pump'')]) ''SPRAS_EN'') ''pump''"
  using searchParts_bounded_and_matching
    [of "''pump''"
        "\<lambda>q. Inr (JObj [(''A100'', JObj [(''SPRAS_EN'', JStr ''Blue Pump'')]),
                       (''B200'', JObj [(''SPRAS_EN'', JStr ''Valve'')]),
                       (''C300'', JObj [(''Supplier_Name'', JStr ''PUMPCO'')])])" 1]
  by (simp add: searchParts_def getAllParts_def js_or_def search_matches_def lower_text_def
        toLowerCase_def lower_char_def entry_text_def contains_ci_def sublist_code)

lemma first_key_delete:
  "AList.delete k al = (k', v) # rest \<Longrightarrow> k' \<noteq> k"
proof
  assume eq: "AList.delete k al = (k', v) # rest" and "k' = k"
  then have "k \<in> fst ` set (AList.delete k al)" by force
  then show False by (simp add: AList.delete_notin_dom)
qed

lemma delete_absent: "k \<notin> fst ` set al \<Longrightarrow> AList.delete k al = al"
  by (induction al) (auto simp: AList.delete_eq)

lemma delete_prop_entries:
  "Object_entries (case delete_prop data key of Inl e \<Rightarrow> JObj [] | Inr d \<Rightarrow> d)
     = AList.delete key (Object_entries data)
   \<or> Object_entries (case delete_prop data key of Inl e \<Rightarrow> JObj [] | Inr d \<Rightarrow> d) = []"
  by (cases data) simp_all

text \<open>
  C6. A cursor is a key of the store, hence a non-empty string. For every limit, every
  such cursor (in particular the last key of a first page) and every answer of the remote
  range query, the page returned by \<^verbatim>\<open>getPaginatedParts(limit, cursor)\<close> does not begin
  with the cursor key; and when the query answers with the cursor's own entry first, the
  page is that answer without the entry, so the boundary row is not repeated.
\<close>

theorem getPaginatedParts_drops_cursor:
  assumes "cursor \<noteq> []"
  shows "(\<forall>k v rest. Object_entries (getPaginatedParts remote limit (Some cursor)) = (k, v) # rest
            \<longrightarrow> k \<noteq> cursor)
       \<and> (\<forall>v rest. remote (Query ''Parts'' (Some cursor) (Some (limit + 1)))
                      = Inr (JObj ((cursor, v) # rest))
                   \<and> cursor \<notin> fst ` set rest
            \<longrightarrow> getPaginatedParts remote limit (Some cursor) = JObj rest)"
proof (intro conjI allI impI)
  fix k v rest
  assume page: "Object_entries (getPaginatedParts remote limit (Some cursor)) = (k, v) # rest"
  have cg: "cursor_given (Some cursor)" using assms by (simp add: cursor_given_def)
  show "k \<noteq> cursor"
  proof (cases "remote (Query ''Parts'' (Some cursor) (Some (limit + 1)))")
    case (Inl e)
    then show ?thesis using page cg by (simp add: getPaginatedParts_def)
  next
    case (Inr val)
    define data where "data = js_or val (JObj [])"
    show ?thesis
    proof (cases "Object_entries data")
      case Nil
      then show ?thesis
        using page cg Inr by (simp add: getPaginatedParts_def data_def [symmetric] Let_def)
    next
      case (Cons e es)
      obtain key0 v0 where e: "e = (key0, v0)" by (cases e)
      show ?thesis
      proof (cases "key0 = cursor")
        case False
        then have "getPaginatedParts remote limit (Some cursor) = data"
          using cg Inr Cons e by (simp add: getPaginatedParts_def data_def [symmetric] Let_def)
        then show ?thesis using page Cons e False by simp
      next
        case True
        then have res: "getPaginatedParts remote limit (Some cursor) =
            (case delete_prop data cursor of Inl e \<Rightarrow> JObj [] | Inr data' \<Rightarrow> data')"
          using cg Inr Cons e by (simp add: getPaginatedParts_def data_def [symmetric] Let_def)
        from delete_prop_entries [of data cursor] page
        have "AList.delete cursor (Object_entries data) = (k, v) # rest"
          unfolding res by auto
        then show ?thesis by (rule first_key_delete)
      qed
    qed
  qed
next
  fix v rest
  assume h: "remote (Query ''Parts'' (Some cursor) (Some (limit + 1)))
               = Inr (JObj ((cursor, v) # rest)) \<and> cursor \<notin> fst ` set rest"
  have cg: "cursor_given (Some cursor)" using assms by (simp add: cursor_given_def)
  have "AList.delete cursor ((cursor, v) # rest) = rest"
    using h by (simp add: AList.delete_eq delete_absent [unfolded AList.delete_eq])
  then show "getPaginatedParts remote limit (Some cursor) = JObj rest"
    using h cg by (simp add: getPaginatedParts_def js_or_def)
qed

theorem getPaginatedParts_drops_cursor_witness:
  "getPaginatedParts
     (store_read (JObj [(''Parts'', JObj [(''a'', JNum 1), (''b'', JNum 2), (''c'', JNum 3),
                                           (''d'', JNum 4)])])) 2 None
     = JObj [(''a'', JNum 1), (''b'', JNum 2)]
   \<and> getPaginatedParts
     (store_read (JObj [(''Parts'', JObj [(''a'', JNum 1), (''b'', JNum 2), (''c'', JNum 3),
                                           (''d'', JNum 4)])])) 2 (Some ''b'')
     = JObj [(''c'', JNum 3), (''d'', JNum 4)]"
  using getPaginatedParts_drops_cursor
    [of "''b''"
        "store_read (JObj [(''Parts'', JObj [(''a'', JNum 1), (''b'', JNum 2), (''c'', JNum 3),
                                           (''d'', JNum 4)])])" 2]
  by (simp add: getPaginatedParts_def store_read_def cursor_given_def split_path_def child_def
        js_or_def AList.delete_eq)

lemma split_path_base: "split_path ''material_summary_2025'' = [''material_summary_2025'']"
  by (simp add: split_path_def)

text \<open>
  C9. With an empty search term, \<^verbatim>\<open>searchParts\<close> on a store returns the first
  \<open>limit\<close> children of the base dataset \<^verbatim>\<open>material_summary_2025\<close> as they are: at
  most \<open>limit\<close> entries, exactly \<open>limit\<close> when the dataset has that many, and the
  same result whatever the rest of the store (the admin overrides under \<^verbatim>\<open>Parts\<close>
  included) holds.
\<close>

theorem searchParts_empty_term_first_entries:
  "Object_entries (searchParts (store_read tree) [] limit)
     = take limit (node_children (child tree ''material_summary_2025''))
   \<and> length (Object_entries (searchParts (store_read tree) [] limit)) \<le> limit
   \<and> (limit \<le> length (node_children (child tree ''material_summary_2025''))
        \<longrightarrow> length (Object_entries (searchParts (store_read tree) [] limit)) = limit)
   \<and> (\<forall>tree'. child tree' ''material_summary_2025'' = child tree ''material_summary_2025''
        \<longrightarrow> searchParts (store_read tree') [] limit = searchParts (store_read tree) [] limit)"
proof -
  have res: "searchParts (store_read t) [] limit =
      (if take limit (node_children (child t ''material_summary_2025'')) = [] then JObj []
       else JObj (take limit (node_children (child t ''material_summary_2025''))))" for t
    by (simp add: searchParts_def store_read_def split_path_base js_or_def)
  have entries: "Object_entries (searchParts (store_read tree) [] limit)
     = take limit (node_children (child tree ''material_summary_2025''))"
    by (simp add: res)
  show ?thesis
    unfolding entries by (simp add: res)
qed

theorem searchParts_empty_term_first_entries_witness:
  "searchParts
     (store_read (JObj [(''material_summary_2025'',
                          JObj [(''A100'', JObj [(''notes'', JStr ''base'')]),
                                (''B200'', JObj []), (''C300'', JObj [])]),
                        (''Parts'', JObj [(''A100'', JObj [(''notes'', JStr ''override'')])])]))
     [] 2
   = JObj [(''A100'', JObj [(''notes'', JStr ''base'')]), (''B200'', JObj [])]"
  using searchParts_empty_term_first_entries
    [of "JObj [(''material_summary_2025'',
                          JObj [(''A100'', JObj [(''notes'', JStr ''base'')]),
                                (''B200'', JObj []), (''C300'', JObj [])]),
                        (''Parts'', JObj [(''A100'', JObj [(''notes'', JStr ''override'')])])]" 2]
  by (simp add: searchParts_def store_read_def split_path_def child_def js_or_def)

lemma map_of_spread:
  "distinct (map fst source) \<Longrightarrow>
   map_of (spread target source) f =
     (case map_of source f of Some x \<Rightarrow> Some x | None \<Rightarrow> map_of target f)"
  unfolding spread_def
proof (induction source arbitrary: target)
  case Nil
  then show ?case by simp
next
  case (Cons e es)
  obtain k v where e: "e = (k, v)" by (cases e)
  have d: "distinct (map fst es)" and k: "k \<notin> fst ` set es"
    using Cons.prems e by auto
  have none: "map_of es k = None" using k by (simp add: map_of_eq_None_iff)
  show ?case
    using Cons.IH [OF d, of "AList.update k v target"] e none
    by (auto simp: AList.update_conv' split: option.splits)
qed

lemma map_of_fold_collect_step:
  "distinct (map fst es) \<Longrightarrow>
   map_of (fold collect_step es acc) k =
     (case map_of es k of
        Some p \<Rightarrow> if isRecord p then Some p else map_of acc k
      | None \<Rightarrow> map_of acc k)"
proof (induction es arbitrary: acc)
  case Nil
  then show ?case by simp
next
  case (Cons e es)
  obtain m p where e: "e = (m, p)" by (cases e)
  have d: "distinct (map fst es)" and m: "m \<notin> fst ` set es"
    using Cons.prems e by auto
  have none: "map_of es m = None" using m by (simp add: map_of_eq_None_iff)
  show ?case
    using Cons.IH [OF d, of "collect_step e acc"] e none
    by (auto simp: collect_step_def AList.update_conv' split: option.splits)
qed

lemma distinct_fold_collect_step:
  "distinct (map fst acc) \<Longrightarrow> distinct (map fst (fold collect_step es acc))"
  by (induction es arbitrary: acc) (auto simp: collect_step_def AList.distinct_update)

lemma map_of_fold_merge_step:
  "distinct (map fst ads) \<Longrightarrow>
   map_of (fold merge_step ads merged) k =
     (case map_of ads k of
        Some ov \<Rightarrow>
          Some (JObj (spread
                  (Object_entries (case map_of merged k of Some b \<Rightarrow> b | None \<Rightarrow> JObj []))
                  (Object_entries ov)))
      | None \<Rightarrow> map_of merged k)"
proof (induction ads arbitrary: merged)
  case Nil
  then show ?case by simp
next
  case (Cons e es)
  obtain m ov where e: "e = (m, ov)" by (cases e)
  have d: "distinct (map fst es)" and m: "m \<notin> fst ` set es"
    using Cons.prems e by auto
  have none: "map_of es m = None" using m by (simp add: map_of_eq_None_iff)
  show ?case
    using Cons.IH [OF d, of "merge_step e merged"] e none
    by (auto simp: merge_step_def AList.update_conv' split: option.splits)
qed

text \<open>
  The revision of \<^verbatim>\<open>getAllParts\<close> that reads both subtrees merges field by field: for
  every base mapping, every admin-overrides mapping and every key that holds a record in
  both, the returned mapping holds at that key a record whose value at each field is the
  override's value when the override has the field, and the base's value otherwise.
\<close>

lemma getAllParts_overrides_merges_fieldwise:
  assumes "remote (Query ''material_summary_2025'' None None) = Inr (JObj baseParts)"
      and "remote (Query ''Parts'' None None) = Inr (JObj adminParts)"
      and "distinct (map fst baseParts)" and "distinct (map fst adminParts)"
      and "map_of baseParts material = Some (JObj base)"
      and "map_of adminParts material = Some (JObj overrides)"
      and "distinct (map fst overrides)"
  shows "\<exists>merged.
           map_of (Object_entries (getAllParts_overrides remote)) material = Some (JObj merged)
         \<and> (\<forall>field. map_of merged field =
               (case map_of overrides field of
                  Some x \<Rightarrow> Some x
                | None \<Rightarrow> map_of base field))"
proof -
  have b: "map_of (collect_records (JObj baseParts)) material = Some (JObj base)"
    using assms(3,5) by (simp add: collect_records_def map_of_fold_collect_step)
  have a: "map_of (collect_records (JObj adminParts)) material = Some (JObj overrides)"
    using assms(4,6) by (simp add: collect_records_def map_of_fold_collect_step)
  have da: "distinct (map fst (collect_records (JObj adminParts)))"
    by (simp add: collect_records_def distinct_fold_collect_step)
  have "map_of (Object_entries (getAllParts_overrides remote)) material
          = Some (JObj (spread base overrides))"
    using assms(1,2) by (simp add: getAllParts_overrides_def map_of_fold_merge_step [OF da] a b)
  moreover have "\<forall>field. map_of (spread base overrides) field =
               (case map_of overrides field of
                  Some x \<Rightarrow> Some x
                | None \<Rightarrow> map_of base field)"
    using assms(7) by (simp add: map_of_spread)
  ultimately show ?thesis by blast
qed

lemma getAllParts_overrides_merges_fieldwise_example:
  "map_of (Object_entries (getAllParts_overrides
      (store_read (JObj [(''material_summary_2025'',
                           JObj [(''A100'', JObj [(''SPRAS_EN'', JStr ''Pump''),
                                                  (''notes'', JStr ''old'')])]),
                         (''Parts'',
                           JObj [(''A100'', JObj [(''notes'', JStr ''new''),
                                                  (''year'', JStr ''2024'')])])])))) ''A100''
   = Some (JObj [(''SPRAS_EN'', JStr ''Pump''), (''notes'', JStr ''new''),
                 (''year'', JStr ''2024'')])"
  using getAllParts_overrides_merges_fieldwise
    [of "store_read (JObj [(''material_summary_2025'',
                           JObj [(''A100'', JObj [(''SPRAS_EN'', JStr ''Pump''),
                                                  (''notes'', JStr ''old'')])]),
                         (''Parts'',
                           JObj [(''A100'', JObj [(''notes'', JStr ''new''),
                                                  (''year'', JStr ''2024'')])])])"
        "[(''A100'', JObj [(''SPRAS_EN'', JStr ''Pump''), (''notes'', JStr ''old'')])]"
        "[(''A100'', JObj [(''notes'', JStr ''new''), (''year'', JStr ''2024'')])]"
        "''A100''"
        "[(''SPRAS_EN'', JStr ''Pump''), (''notes'', JStr ''old'')]"
        "[(''notes'', JStr ''new''), (''year'', JStr ''2024'')]"]
  by (simp add: getAllParts_overrides_def store_read_def split_path_def child_def
        collect_records_def collect_step_def merge_step_def spread_def)

text \<open>
  The \<^verbatim>\<open>getAllParts\<close> of \<^verbatim>\<open>firebase.ts\<close> reads the base dataset only: what the store
  holds under \<^verbatim>\<open>Parts\<close> does not reach its result.
\<close>

lemma getAllParts_reads_base_only:
  "child tree' ''material_summary_2025'' = child tree ''material_summary_2025'' \<Longrightarrow>
   getAllParts (store_read tree') = getAllParts (store_read tree)"
  by (simp add: getAllParts_def store_read_def split_path_base)

text \<open>
  C1. On a store where the part \<^verbatim>\<open>A100\<close> has a base record and an admin override, the
  \<^verbatim>\<open>getAllParts\<close> of \<^verbatim>\<open>firebase.ts\<close> returns the base record as it is: the note keeps
  the base's value and the override's year is absent. The revision that reads both
  subtrees returns the merged record on the same store.
\<close>

theorem getAllParts_ignores_overrides:
  "getAllParts (store_read overridden_store)
     = JObj [(''A100'', JObj [(''SPRAS_EN'', JStr ''Pump''), (''notes'', JStr ''old'')])]
   \<and> getAllParts_overrides (store_read overridden_store)
     = JObj [(''A100'', JObj [(''SPRAS_EN'', JStr ''Pump''), (''notes'', JStr ''new''),
                              (''year'', JStr ''2024'')])]"
  by (simp add: getAllParts_def getAllParts_overrides_def overridden_store_def store_read_def
        split_path_def child_def js_or_def collect_records_def collect_step_def merge_step_def
        spread_def)

section \<open>Properties of the document renderer\<close>

lemma embed_image_loop_tried:
  "fst (embed_image_loop loads urls)
     = takeWhile (\<lambda>u. \<not> loads u) urls @ take 1 (dropWhile (\<lambda>u. \<not> loads u) urls)"
  by (induction urls) (auto split: prod.splits)

lemma embed_image_loop_embedded:
  "snd (embed_image_loop loads urls) = List.find loads urls"
  by (induction urls) (auto split: prod.splits)

text \<open>
  The candidate order as the specification words it (stored URL, then \<^verbatim>\<open>.png\<close>,
  \<^verbatim>\<open>.jpg\<close>, \<^verbatim>\<open>.webp\<close> against the public base) is not the order the renderer
  follows: for a record with a stored URL and no image that loads, the URLs tried are
  not the specified ones.
\<close>

theorem embed_image_candidates_counterexample:
  "fst (embed_image never_loads sample_pdf_application)
     = [ ''https://example.test/stored.png'',
         ''https://firebasestorage.googleapis.com/v0/b/parts-catalogue-mgx.appspot.com/o/part-applications%2FAPP0001.jpg?alt=media'',
         ''https://firebasestorage.googleapis.com/v0/b/parts-catalogue-mgx.appspot.com/o/part-applications%2FAPP0001.png?alt=media'' ]
   \<and> fst (embed_image never_loads sample_pdf_application)
     \<noteq> specified_candidates sample_pdf_application"
  by (simp add: embed_image_def imageUrls_def never_loads_def sample_pdf_application_def
        specified_candidates_def getPartImageUrlWithFallback_def)

text \<open>
  C7, as the renderer does it. When embedding an image the renderer tries its candidate
  URLs in order and stops at the first one that loads, which is the one embedded. The
  candidates are the record's stored image URL when it is non-empty, then two guessed
  URLs under \<^verbatim>\<open>part-applications/\<close> of the \<^verbatim>\<open>parts-catalogue-mgx\<close> bucket, with the
  extensions \<^verbatim>\<open>.jpg\<close> and \<^verbatim>\<open>.png\<close> in that order.
\<close>

theorem embed_image_tries_stored_then_jpg_png:
  "fst (embed_image loads application)
     = takeWhile (\<lambda>u. \<not> loads u) (imageUrls application)
       @ take 1 (dropWhile (\<lambda>u. \<not> loads u) (imageUrls application))
   \<and> snd (embed_image loads application) = List.find loads (imageUrls application)
   \<and> (\<forall>u. image_url application = Some u \<and> u \<noteq> [] \<longrightarrow>
         imageUrls application =
           [ u,
             ''https://firebasestorage.googleapis.com/v0/b/parts-catalogue-mgx.appspot.com/o/part-applications%2F''
               @ ticket_id application @ ''.jpg?alt=media'',
             ''https://firebasestorage.googleapis.com/v0/b/parts-catalogue-mgx.appspot.com/o/part-applications%2F''
               @ ticket_id application @ ''.png?alt=media'' ])
   \<and> ((image_url application = None \<or> image_url application = Some []) \<longrightarrow>
         imageUrls application =
           [ ''https://firebasestorage.googleapis.com/v0/b/parts-catalogue-mgx.appspot.com/o/part-applications%2F''
               @ ticket_id application @ ''.jpg?alt=media'',
             ''https://firebasestorage.googleapis.com/v0/b/parts-catalogue-mgx.appspot.com/o/part-applications%2F''
               @ ticket_id application @ ''.png?alt=media'' ])"
  by (auto simp: embed_image_def embed_image_loop_tried embed_image_loop_embedded imageUrls_def)

theorem embed_image_tries_stored_then_jpg_png_witness:
  "embed_image
     (\<lambda>u. u = ''https://firebasestorage.googleapis.com/v0/b/parts-catalogue-mgx.appspot.com/o/part-applications%2FAPP0001.jpg?alt=media'')
     sample_pdf_application
   = ([''https://example.test/stored.png'',
       ''https://firebasestorage.googleapis.com/v0/b/parts-catalogue-mgx.appspot.com/o/part-applications%2FAPP0001.jpg?alt=media''],
      Some ''https://firebasestorage.googleapis.com/v0/b/parts-catalogue-mgx.appspot.com/o/part-applications%2FAPP0001.jpg?alt=media'')"
  using embed_image_tries_stored_then_jpg_png
    [of "\<lambda>u. u = ''https://firebasestorage.googleapis.com/v0/b/parts-catalogue-mgx.appspot.com/o/part-applications%2FAPP0001.jpg?alt=media''"
        sample_pdf_application]
  by (simp add: embed_image_def imageUrls_def sample_pdf_application_def)

section \<open>Properties of the application workflow\<close>

lemma child_update:
  "child (JObj (AList.update key x kids)) key = x"
  by (simp add: child_def AList.update_conv')

lemma lookup_update_path_same: "lookup_path (update_path node p v) p = v"
  by (induction p arbitrary: node) (simp_all add: child_update)


lemma only_after_success_complete:
  "(\<And>pre ok post. l = pre @ (del, ok) # post \<Longrightarrow> (up, True) \<in> set pre) \<Longrightarrow>
   only_after_success del up l"
proof (induction l)
  case Nil
  then show ?case by simp
next
  case (Cons e l)
  obtain c b where e: "e = (c, b)" by (cases e)
  show ?case
  proof (cases "c = up \<and> b")
    case True
    then show ?thesis using e by simp
  next
    case False
    have "c \<noteq> del"
    proof
      assume "c = del"
      then have "e # l = [] @ (del, b) # l" using e by simp
      then have "(up, True) \<in> set []" by (rule Cons.prems)
      then show False by simp
    qed
    moreover have "only_after_success del up l"
    proof (rule Cons.IH)
      fix pre ok post
      assume "l = pre @ (del, ok) # post"
      then have "e # l = (e # pre) @ (del, ok) # post" by simp
      then have "(up, True) \<in> set (e # pre)" by (rule Cons.prems)
      then show "(up, True) \<in> set pre" using False e by auto
    qed
    ultimately show ?thesis using False e by simp
  qed
qed

lemma hex_digit_inj: "n < 16 \<Longrightarrow> m < 16 \<Longrightarrow> hex_digit n = hex_digit m \<Longrightarrow> n = m"
  by (simp add: hex_digit_def nth_eq_iff_index_eq)

lemma encode_char_hex_inj:
  assumes "hex_digit ((of_char c :: nat) div 16) = hex_digit ((of_char d :: nat) div 16)"
      and "hex_digit ((of_char c :: nat) mod 16) = hex_digit ((of_char d :: nat) mod 16)"
  shows "c = d"
proof -
  have c: "(of_char c :: nat) div 16 < 16" and d: "(of_char d :: nat) div 16 < 16"
    using nat_of_char_less_256 [of c] nat_of_char_less_256 [of d] by arith+
  have "(of_char c :: nat) div 16 = (of_char d :: nat) div 16"
    using hex_digit_inj [OF c d assms(1)] .
  moreover have "(of_char c :: nat) mod 16 = (of_char d :: nat) mod 16"
    using hex_digit_inj [OF _ _ assms(2)] by simp
  ultimately have "(of_char c :: nat) = of_char d"
    by (metis div_mult_mod_eq)
  then show ?thesis by simp
qed

lemma percent_reserved: "\<not> unreserved CHR ''%''"
  by (simp add: unreserved_def)

lemma encode_char_append_inj:
  assumes eq: "encode_char c @ xs = encode_char d @ ys"
  shows "c = d \<and> xs = ys"
proof (cases "unreserved c")
  case uc: True
  show ?thesis
  proof (cases "unreserved d")
    case True
    then show ?thesis using eq uc by (simp add: encode_char_def)
  next
    case False
    then have "c = CHR ''%''" using eq uc by (simp add: encode_char_def)
    then show ?thesis using uc percent_reserved by simp
  qed
next
  case rc: False
  show ?thesis
  proof (cases "unreserved d")
    case True
    then have "d = CHR ''%''" using eq rc by (simp add: encode_char_def)
    then show ?thesis using True percent_reserved by simp
  next
    case False
    then have h: "hex_digit ((of_char c :: nat) div 16) = hex_digit ((of_char d :: nat) div 16)"
        "hex_digit ((of_char c :: nat) mod 16) = hex_digit ((of_char d :: nat) mod 16)"
        "xs = ys"
      using eq rc by (simp_all add: encode_char_def)
    then show ?thesis using encode_char_hex_inj by blast
  qed
qed

lemma encodeURIComponent_inj: "encodeURIComponent s = encodeURIComponent t \<Longrightarrow> s = t"
proof (induction s arbitrary: t)
  case Nil
  then show ?case
    by (cases t) (auto simp: encodeURIComponent_def encode_char_def split: if_splits)
next
  case (Cons c s)
  show ?case
  proof (cases t)
    case Nil
    then show ?thesis
      using Cons.prems by (auto simp: encodeURIComponent_def encode_char_def split: if_splits)
  next
    case (Cons d t')
    then have "encode_char c @ encodeURIComponent s = encode_char d @ encodeURIComponent t'"
      using Cons.prems by (simp add: encodeURIComponent_def)
    then have "c = d" and "encodeURIComponent s = encodeURIComponent t'"
      using encode_char_append_inj by blast+
    then show ?thesis using Cons Cons.IH by simp
  qed
qed

lemma download_url_inj: "download_url key = download_url key' \<Longrightarrow> key = key'"
  by (simp add: download_url_def encodeURIComponent_inj)

lemma find_issued_url_exact:
  "map_of bs key = Some bytes \<Longrightarrow>
   List.find (\<lambda>(k, b). download_url k = download_url key) bs = Some (key, bytes)"
proof (induction bs)
  case Nil
  then show ?case by simp
next
  case (Cons e bs)
  obtain a b where e: "e = (a, b)" by (cases e)
  show ?case
  proof (cases "a = key")
    case True
    then show ?thesis using Cons.prems e by simp
  next
    case False
    then have "download_url a \<noteq> download_url key" using download_url_inj by blast
    then show ?thesis using Cons False e by simp
  qed
qed

lemma storage_getDownloadURL_world:
  "storage_getDownloadURL w key = (r, w') \<Longrightarrow>
   w' = w\<lparr>calls := calls w @ [(StorageGetDownloadURL key, \<not> isl r)]\<rparr>
   \<and> (isl r \<or> r = Inr (download_url key) \<and> map_of (blobs w) key \<noteq> None)"
  by (auto simp: storage_getDownloadURL_def record_call_def split: if_splits)

lemma http_fetch_world:
  "http_fetch w url = (r, w') \<Longrightarrow> w' = w\<lparr>calls := calls w @ [(HttpFetch url, \<not> isl r)]\<rparr>"
  by (auto simp: http_fetch_def record_call_def split: if_splits option.splits)

lemma storage_upload_world:
  "storage_upload w key blob = (r, w') \<Longrightarrow>
   w' = w\<lparr>blobs := (if isl r then blobs w else AList.update key blob (blobs w)),
          calls := calls w @ [(StorageUpload key, \<not> isl r)]\<rparr>"
  by (auto simp: storage_upload_def record_call_def split: if_splits)

lemma storage_delete_world:
  "storage_delete w key = (r, w') \<Longrightarrow>
   w' = w\<lparr>blobs := (if isl r then blobs w else AList.delete key (blobs w)),
          calls := calls w @ [(StorageDelete key, \<not> isl r)]\<rparr>"
  by (auto simp: storage_delete_def record_call_def split: if_splits)

lemma db_get_invalid: "\<not> valid_path path \<Longrightarrow> db_get w path = (Inl InvalidPath, w)"
  by (simp add: db_get_def)

lemma db_set_invalid: "\<not> valid_path path \<Longrightarrow> db_set w path v = (Inl InvalidPath, w)"
  by (simp add: db_set_def)

lemma db_get_world:
  "db_get w path = (r, w') \<Longrightarrow> valid_path path \<Longrightarrow>
   w' = w\<lparr>calls := calls w @ [(DbGet path, \<not> isl r)]\<rparr>
   \<and> (isl r \<or> r = Inr (lookup_path (store w) (split_path path)))"
  by (auto simp: db_get_def record_call_def split: if_splits)

lemma db_set_world:
  "db_set w path v = (r, w') \<Longrightarrow> valid_path path \<Longrightarrow>
   w' = w\<lparr>store := (if isl r then store w else update_path (store w) (split_path path) v),
          calls := calls w @ [(DbSet path, \<not> isl r)]\<rparr>
   \<and> (isl r \<or> r = Inr ())"
  by (auto simp: db_set_def record_call_def split: if_splits)

lemma rename_outcome:
  fixes w applicationId code
  defines "old \<equiv> applicationId @ ''.png''" and "new \<equiv> code @ ''.png''"
      and "path \<equiv> ''partApplications/'' @ applicationId"
  shows "\<exists>l. calls (snd (renamePartApplicationImage w applicationId code)) = calls w @ l
           \<and> only_after_success (StorageDelete old) (StorageUpload new) l
           \<and> faults (snd (renamePartApplicationImage w applicationId code)) = faults w
           \<and> (isl (fst (renamePartApplicationImage w applicationId code))
                \<and> store (snd (renamePartApplicationImage w applicationId code)) = store w
              \<or> fst (renamePartApplicationImage w applicationId code) = Inr ()
                \<and> store (snd (renamePartApplicationImage w applicationId code))
                    = update_path (store w) (split_path path)
                        (repointed (lookup_path (store w) (split_path path)) (download_url new)))"
proof -
  obtain r1 w1 where s1: "storage_getDownloadURL w old = (r1, w1)" by fastforce
  note f1 = storage_getDownloadURL_world [OF s1]
  show ?thesis
  proof (cases r1)
    case (Inl e)
    then have "renamePartApplicationImage w applicationId code = (Inl e, w1)"
      using s1 by (simp add: renamePartApplicationImage_def old_def)
    then show ?thesis using f1 Inl by simp
  next
    case r1: (Inr oldUrl)
    obtain r2 w2 where s2: "http_fetch w1 oldUrl = (r2, w2)" by fastforce
    note f2 = http_fetch_world [OF s2]
    show ?thesis
    proof (cases r2)
      case (Inl e)
      then have "renamePartApplicationImage w applicationId code = (Inl e, w2)"
        using s1 r1 s2 by (simp add: renamePartApplicationImage_def old_def)
      then show ?thesis using f1 f2 r1 Inl by simp
    next
      case r2: (Inr blob)
      obtain r3 w3 where s3: "storage_upload w2 new blob = (r3, w3)" by fastforce
      note f3 = storage_upload_world [OF s3]
      show ?thesis
      proof (cases r3)
        case (Inl e)
        then have "renamePartApplicationImage w applicationId code = (Inl e, w3)"
          using s1 r1 s2 r2 s3 by (simp add: renamePartApplicationImage_def old_def new_def)
        then show ?thesis using f1 f2 f3 r1 r2 Inl by simp
      next
        case r3: (Inr u)
        obtain r4 w4 where s4: "storage_delete w3 old = (r4, w4)" by fastforce
        note f4 = storage_delete_world [OF s4]
        obtain r5 w5 where s5: "storage_getDownloadURL w4 new = (r5, w5)" by fastforce
        note f5 = storage_getDownloadURL_world [OF s5]
        have pre: "calls w5 = calls w @ [(StorageGetDownloadURL old, True), (HttpFetch oldUrl, True),
                     (StorageUpload new, True), (StorageDelete old, \<not> isl r4),
                     (StorageGetDownloadURL new, \<not> isl r5)]"
          and st5: "store w5 = store w" and fl5: "faults w5 = faults w"
          using f1 f2 f3 f4 f5 r1 r2 r3 by simp_all
        show ?thesis
        proof (cases r5)
          case (Inl e)
          then have "renamePartApplicationImage w applicationId code = (Inl e, w5)"
            using s1 r1 s2 r2 s3 r3 s4 s5
            by (simp add: renamePartApplicationImage_def old_def new_def)
          then show ?thesis using pre st5 fl5 Inl by simp
        next
          case r5: (Inr newUrl)
          then have newUrl: "newUrl = download_url new" using f5 by simp
          show ?thesis
          proof (cases "valid_path path")
            case False
            then have "renamePartApplicationImage w applicationId code = (Inl InvalidPath, w5)"
              using s1 r1 s2 r2 s3 r3 s4 s5 r5 db_get_invalid [of path w5]
              by (simp add: renamePartApplicationImage_def old_def new_def path_def)
            then show ?thesis using pre st5 fl5 by simp
          next
            case valid: True
          obtain r6 w6 where s6: "db_get w5 path = (r6, w6)" by fastforce
          note f6 = db_get_world [OF s6 valid]
          show ?thesis
          proof (cases r6)
            case (Inl e)
            then have "renamePartApplicationImage w applicationId code = (Inl e, w6)"
              using s1 r1 s2 r2 s3 r3 s4 s5 r5 s6
              by (simp add: renamePartApplicationImage_def old_def new_def path_def)
            then show ?thesis using pre st5 fl5 f6 Inl by simp
          next
            case r6: (Inr current)
            then have current: "current = lookup_path (store w) (split_path path)"
              using f6 st5 by simp
            obtain r7 w7 where s7: "db_set w6 path (repointed current newUrl) = (r7, w7)"
              by fastforce
            note f7 = db_set_world [OF s7 valid]
            have "renamePartApplicationImage w applicationId code = (r7, w7)"
              using s1 r1 s2 r2 s3 r3 s4 s5 r5 s6 r6 s7
              by (cases "current = JNull")
                 (simp_all add: renamePartApplicationImage_def old_def new_def path_def
                    repointed_def)
            then show ?thesis
              using pre st5 fl5 f6 f7 r6 current newUrl by (cases r7) auto
          qed
          qed
        qed
      qed
    qed
  qed
qed




text \<open>
  Approving with a part code equal to the application identifier makes source and
  destination the same blob: the delete that follows the upload removes it, the next call
  finds nothing, and the rename fails with the image gone.
\<close>

lemma rename_onto_itself_loses_image:
  assumes blob: "map_of (blobs w) (applicationId @ ''.png'') = Some bytes"
      and ok: "\<forall>n. \<not> faults w n"
  shows "fst (renamePartApplicationImage w applicationId applicationId) = Inl RemoteFault
       \<and> map_of (blobs (snd (renamePartApplicationImage w applicationId applicationId)))
            (applicationId @ ''.png'') = None"
proof -
  note fnd = find_issued_url_exact [OF blob]
  show ?thesis
    unfolding renamePartApplicationImage_def
    using blob fnd ok
    by (simp add: storage_getDownloadURL_def http_fetch_def storage_upload_def
          storage_delete_def record_call_def remote_ok_def
          AList.update_conv' AList.delete_conv')
qed



text \<open>
  Without a stored record the call still fails in two cases: an identifier that is not a
  valid path is refused by \<^verbatim>\<open>ref\<close>, and a failing read is thrown on.
\<close>

theorem approvePartApplication_missing_record_counterexample:
  "lookup_path (store sample_world) (split_path ''partApplications/APP.9'') = JNull
   \<and> fst (approvePartApplication sample_world ''APP.9'' ''PC-100'' ''2025-02-01T00:00:00.000Z'')
       = Inl InvalidPath
   \<and> lookup_path (store failing_read_world) (split_path ''partApplications/APP0009'') = JNull
   \<and> fst (approvePartApplication failing_read_world ''APP0009'' ''PC-100''
             ''2025-02-01T00:00:00.000Z'')
       = Inl RemoteFault"
  by code_simp

text \<open>
  C10, with the two conditions it needs. For every application identifier that forms a
  valid path and has no stored record, when the read itself succeeds,
  \<^verbatim>\<open>approvePartApplication(id, partCode)\<close> completes without error after that one read
  and writes nothing: the document store and the blob store are unchanged. Its result is
  the same as that of an approval that found its record and wrote it, so the caller
  cannot tell the two apart.
\<close>

theorem approvePartApplication_missing_record_noop:
  assumes "valid_path (''partApplications/'' @ applicationId)"
      and "lookup_path (store w) (split_path (''partApplications/'' @ applicationId)) = JNull"
      and "remote_ok w"
  shows "approvePartApplication w applicationId code now
           = (Inr (), record_call w (DbGet (''partApplications/'' @ applicationId)) True)
       \<and> store (snd (approvePartApplication w applicationId code now)) = store w
       \<and> blobs (snd (approvePartApplication w applicationId code now)) = blobs w
       \<and> (\<forall>w' applicationId'.
             valid_path (''partApplications/'' @ applicationId')
             \<and> lookup_path (store w') (split_path (''partApplications/'' @ applicationId')) \<noteq> JNull
             \<and> remote_ok w' \<and> \<not> faults w' (Suc (length (calls w')))
             \<longrightarrow> fst (approvePartApplication w' applicationId' code now)
                   = fst (approvePartApplication w applicationId code now))"
proof -
  have noop: "approvePartApplication w applicationId code now
           = (Inr (), record_call w (DbGet (''partApplications/'' @ applicationId)) True)"
    using assms by (simp add: approvePartApplication_def db_get_def)
  have ok_too: "fst (approvePartApplication w' applicationId' code now) = Inr ()"
    if "valid_path (''partApplications/'' @ applicationId')"
       "lookup_path (store w') (split_path (''partApplications/'' @ applicationId')) \<noteq> JNull"
       "remote_ok w'" "\<not> faults w' (Suc (length (calls w')))" for w' applicationId'
    using that
    by (simp add: approvePartApplication_def db_get_def db_set_def remote_ok_def record_call_def)
  show ?thesis
    unfolding noop using ok_too by (simp add: record_call_def)
qed

theorem approvePartApplication_missing_record_noop_witness:
  "approvePartApplication sample_world ''APP0009'' ''PC-100'' ''2025-02-01T00:00:00.000Z''
     = (Inr (), sample_world\<lparr>calls := [(DbGet ''partApplications/APP0009'', True)]\<rparr>)"
  using approvePartApplication_missing_record_noop
    [of "''APP0009''" sample_world "''PC-100''" "''2025-02-01T00:00:00.000Z''"]
  by (simp add: sample_world_def split_path_def child_def remote_ok_def record_call_def
        valid_path_def invalid_path_char_def)

lemma uploadPartApplicationImage_store:
  "store (snd (uploadPartApplicationImage w file applicationId)) = store w"
proof -
  obtain r1 w1 where s1: "storage_upload w (applicationId @ ''.png'') file = (r1, w1)"
    by fastforce
  obtain r2 w2 where s2: "storage_getDownloadURL w1 (applicationId @ ''.png'') = (r2, w2)"
    by fastforce
  show ?thesis
    using storage_upload_world [OF s1] storage_getDownloadURL_world [OF s2] s1 s2
    by (cases r1) (simp_all add: uploadPartApplicationImage_def)
qed

lemma loadApplications_world:
  "store (snd (loadApplications ui w)) = store w
   \<and> message (fst (loadApplications ui w)) = message ui"
proof -
  obtain r1 w1 where s1: "db_get w ''partApplications'' = (r1, w1)" by fastforce
  have valid: "valid_path ''partApplications''"
    by (simp add: valid_path_def invalid_path_char_def)
  show ?thesis
    using db_get_world [OF s1 valid] s1
    by (cases r1) (simp_all add: loadApplications_def getPartApplications_def)
qed

lemma savePartApplication_store:
  assumes "savePartApplication w application = (Inr u, w')"
  shows "\<exists>stored. store w' =
           update_path (store w) (split_path (''partApplications/'' @ app_id application))
             (JObj stored)
         \<and> map_of stored ''status'' = Some (JStr (status application))
         \<and> map_of stored ''partCode'' = None"
proof (cases "imageUrl application")
  case None
  then show ?thesis using assms by (simp add: savePartApplication_def)
next
  case (Some url)
  define stored where "stored =
     [ (''requestedBy'', JStr (requestedBy application)),
       (''department'', JStr (department application)),
       (''priority'', JStr (priority application)),
       (''specifications'', JStr (specifications application)),
       (''supplier'', JStr (supplier application)),
       (''standardPrice'', JStr (standardPrice application)),
       (''notes'', JStr (app_notes application)),
       (''submittedAt'', JStr (submittedAt application)),
       (''status'', JStr (status application)),
       (''imageUrl'', JStr url) ]"
  have s: "db_set w (''partApplications/'' @ app_id application) (JObj stored) = (Inr u, w')"
    using assms Some by (simp add: savePartApplication_def stored_def)
  have valid: "valid_path (''partApplications/'' @ app_id application)"
  proof (rule ccontr)
    assume "\<not> valid_path (''partApplications/'' @ app_id application)"
    then have "db_set w (''partApplications/'' @ app_id application) (JObj stored)
                 = (Inl InvalidPath, w)"
      by (rule db_set_invalid)
    then show False using s by simp
  qed
  have "store w' = update_path (store w)
          (split_path (''partApplications/'' @ app_id application)) (JObj stored)"
    using db_set_world [OF s valid] by simp
  moreover have "map_of stored ''status'' = Some (JStr (status application))"
    and "map_of stored ''partCode'' = None"
    by (simp_all add: stored_def)
  ultimately show ?thesis by blast
qed

lemma handleSubmit_success:
  assumes "message (fst (handleSubmit ui w now)) = Some (SuccessBanner shown)"
  shows "shown = ''Part application '' @ generateApplicationId ui @ '' submitted successfully!''
       \<and> (\<exists>stored.
             lookup_path (store (snd (handleSubmit ui w now)))
               (split_path (''partApplications/'' @ generateApplicationId ui)) = JObj stored
           \<and> map_of stored ''status'' = Some (JStr ''pending'')
           \<and> map_of stored ''partCode'' = None)"
proof (cases "form_requestedBy (formData ui) = [] \<or> form_department (formData ui) = []
         \<or> form_specifications (formData ui) = [] \<or> form_supplier (formData ui) = []
         \<or> form_standardPrice (formData ui) = []")
  case True
  then show ?thesis using assms by (simp add: handleSubmit_def showMessage_def)
next
  case present: False
  show ?thesis
  proof (cases "selectedFile ui")
    case None
    then show ?thesis using assms present by (simp add: handleSubmit_def showMessage_def)
  next
    case (Some bytes)
    obtain r1 w1 where s1: "uploadPartApplicationImage w bytes (generateApplicationId ui) = (r1, w1)"
      by fastforce
    have st1: "store w1 = store w"
      using uploadPartApplicationImage_store [of w bytes "generateApplicationId ui"] s1 by simp
    show ?thesis
    proof (cases r1)
      case (Inl e)
      then show ?thesis
        using assms present Some s1 by (simp add: handleSubmit_def showMessage_def Let_def)
    next
      case (Inr url)
      define newApplication where "newApplication =
                      \<lparr> app_id = generateApplicationId ui,
                        requestedBy = form_requestedBy (formData ui),
                        department = form_department (formData ui),
                        priority = form_priority (formData ui),
                        specifications = form_specifications (formData ui),
                        supplier = form_supplier (formData ui),
                        standardPrice = form_standardPrice (formData ui),
                        app_notes = form_notes (formData ui),
                        submittedAt = now,
                        status = ''pending'',
                        imageUrl = Some url,
                        app_partCode = None \<rparr>"
      obtain r2 w2 where s2: "savePartApplication w1 newApplication = (r2, w2)" by fastforce
      show ?thesis
      proof (cases r2)
        case (Inl e)
        then show ?thesis
          using assms present Some s1 Inr s2
          by (simp add: handleSubmit_def showMessage_def Let_def newApplication_def [symmetric])
      next
        case r2: (Inr u)
        obtain ui3 w3 where s3: "loadApplications ui w2 = (ui3, w3)" by fastforce
        have st3: "store w3 = store w2"
          using loadApplications_world [of ui w2] s3 by simp
        have res: "handleSubmit ui w now =
            ((resetForm (showMessage ui3
                 (SuccessBanner (''Part application '' @ generateApplicationId ui
                                 @ '' submitted successfully!''))))\<lparr>isSubmitting := False\<rparr>, w3)"
          using present Some s1 Inr s2 r2 s3
          by (simp add: handleSubmit_def Let_def newApplication_def [symmetric])
        from savePartApplication_store [OF s2 [unfolded r2]] obtain stored where
          st2: "store w2 = update_path (store w1)
                  (split_path (''partApplications/'' @ generateApplicationId ui)) (JObj stored)"
          and pending: "map_of stored ''status'' = Some (JStr ''pending'')"
          and nocode: "map_of stored ''partCode'' = None"
          by (auto simp: newApplication_def)
        have "shown = ''Part application '' @ generateApplicationId ui @ '' submitted successfully!''"
          using assms unfolding res by (simp add: resetForm_def showMessage_def)
        then show ?thesis
          unfolding res using pending nocode by (simp add: st3 st2 lookup_update_path_same)
      qed
    qed
  qed
qed


text \<open>
  C4. \<^verbatim>\<open>handleSubmit\<close> with a required textual field empty, or with all of them filled
  and no image attached, ends with an error banner that names the problem and leaves the
  world as it was: no remote call is made. Whenever it ends with a success banner, the
  banner carries the generated identifier, and the record stored under that identifier
  has status \<^verbatim>\<open>pending\<close> and no \<^verbatim>\<open>partCode\<close>.
\<close>

theorem handleSubmit_validates_then_stores_pending:
  "(form_requestedBy (formData ui) = [] \<or> form_department (formData ui) = []
      \<or> form_specifications (formData ui) = [] \<or> form_supplier (formData ui) = []
      \<or> form_standardPrice (formData ui) = []
    \<longrightarrow> handleSubmit ui w now
          = (showMessage ui (ErrorBanner ''Please fill in all required fields''), w))
   \<and> (form_requestedBy (formData ui) \<noteq> [] \<and> form_department (formData ui) \<noteq> []
      \<and> form_specifications (formData ui) \<noteq> [] \<and> form_supplier (formData ui) \<noteq> []
      \<and> form_standardPrice (formData ui) \<noteq> [] \<and> selectedFile ui = None
    \<longrightarrow> handleSubmit ui w now = (showMessage ui (ErrorBanner ''Please upload an image''), w))
   \<and> (\<forall>shown. message (fst (handleSubmit ui w now)) = Some (SuccessBanner shown) \<longrightarrow>
         shown = ''Part application '' @ generateApplicationId ui @ '' submitted successfully!''
       \<and> (\<exists>stored.
             lookup_path (store (snd (handleSubmit ui w now)))
               (split_path (''partApplications/'' @ generateApplicationId ui)) = JObj stored
           \<and> map_of stored ''status'' = Some (JStr ''pending'')
           \<and> map_of stored ''partCode'' = None))"
proof (intro conjI allI impI)
  assume "form_requestedBy (formData ui) = [] \<or> form_department (formData ui) = []
      \<or> form_specifications (formData ui) = [] \<or> form_supplier (formData ui) = []
      \<or> form_standardPrice (formData ui) = []"
  then show "handleSubmit ui w now
          = (showMessage ui (ErrorBanner ''Please fill in all required fields''), w)"
    by (simp add: handleSubmit_def)
next
  assume "form_requestedBy (formData ui) \<noteq> [] \<and> form_department (formData ui) \<noteq> []
      \<and> form_specifications (formData ui) \<noteq> [] \<and> form_supplier (formData ui) \<noteq> []
      \<and> form_standardPrice (formData ui) \<noteq> [] \<and> selectedFile ui = None"
  then show "handleSubmit ui w now = (showMessage ui (ErrorBanner ''Please upload an image''), w)"
    by (simp add: handleSubmit_def)
next
  fix shown
  assume "message (fst (handleSubmit ui w now)) = Some (SuccessBanner shown)"
  then show "shown = ''Part application '' @ generateApplicationId ui @ '' submitted successfully!''"
    and "\<exists>stored.
             lookup_path (store (snd (handleSubmit ui w now)))
               (split_path (''partApplications/'' @ generateApplicationId ui)) = JObj stored
           \<and> map_of stored ''status'' = Some (JStr ''pending'')
           \<and> map_of stored ''partCode'' = None"
    using handleSubmit_success [of ui w now shown] by blast+
qed

lemma sample_submit_message:
  "message (fst (handleSubmit sample_page sample_world ''2025-02-01T00:00:00.000Z''))
     = Some (SuccessBanner ''Part application APP0002 submitted successfully!'')"
  by code_simp

theorem handleSubmit_validates_then_stores_pending_witness:
  "handleSubmit (sample_page\<lparr>selectedFile := None\<rparr>) sample_world ''2025-02-01T00:00:00.000Z''
     = (showMessage (sample_page\<lparr>selectedFile := None\<rparr>)
          (ErrorBanner ''Please upload an image''), sample_world)
   \<and> (\<exists>stored.
         lookup_path
           (store (snd (handleSubmit sample_page sample_world ''2025-02-01T00:00:00.000Z'')))
           (split_path (''partApplications/'' @ generateApplicationId sample_page)) = JObj stored
       \<and> map_of stored ''status'' = Some (JStr ''pending'')
       \<and> map_of stored ''partCode'' = None)"
  using handleSubmit_validates_then_stores_pending
      [of "sample_page\<lparr>selectedFile := None\<rparr>" sample_world "''2025-02-01T00:00:00.000Z''"]
    handleSubmit_validates_then_stores_pending
      [of sample_page sample_world "''2025-02-01T00:00:00.000Z''"]
    sample_submit_message
  by (simp add: sample_page_def)

lemma read_prop_repointed_other:
  "name \<noteq> ''imageUrl'' \<Longrightarrow>
   read_prop (repointed (JObj obj) url) name = read_prop (JObj obj) name"
  by (simp add: repointed_def read_prop_def spread_def AList.update_conv')

lemma approve_writes_status:
  assumes "approvePartApplication w applicationId code now = (Inr u, w1)"
      and "lookup_path (store w) (split_path (''partApplications/'' @ applicationId)) \<noteq> JNull"
  shows "\<exists>obj. lookup_path (store w1) (split_path (''partApplications/'' @ applicationId)) = JObj obj
           \<and> read_prop (JObj obj) ''status'' = JStr ''approved''
           \<and> read_prop (JObj obj) ''partCode'' = JStr code"
proof -
  obtain r0 w0 where s0: "db_get w (''partApplications/'' @ applicationId) = (r0, w0)"
    by fastforce
  have valid: "valid_path (''partApplications/'' @ applicationId)"
  proof (rule ccontr)
    assume "\<not> valid_path (''partApplications/'' @ applicationId)"
    then have "approvePartApplication w applicationId code now = (Inl InvalidPath, w)"
      by (simp add: approvePartApplication_def db_get_invalid)
    then show False using assms(1) by simp
  qed
  note f0 = db_get_world [OF s0 valid]
  show ?thesis
  proof (cases r0)
    case (Inl e)
    then show ?thesis using assms(1) s0 by (simp add: approvePartApplication_def)
  next
    case (Inr currentData)
    then have cur: "currentData = lookup_path (store w) (split_path (''partApplications/'' @ applicationId))"
      using f0 by simp
    define obj where "obj = spread (Object_entries currentData)
                       [ (''status'', JStr ''approved''), (''partCode'', JStr code),
                         (''approvedAt'', JStr now) ]"
    have s1: "db_set w0 (''partApplications/'' @ applicationId) (JObj obj) = (Inr u, w1)"
      using assms s0 Inr cur by (simp add: approvePartApplication_def obj_def)
    have "store w1 = update_path (store w) (split_path (''partApplications/'' @ applicationId)) (JObj obj)"
      using db_set_world [OF s1 valid] f0 by simp
    then have "lookup_path (store w1) (split_path (''partApplications/'' @ applicationId)) = JObj obj"
      by (simp add: lookup_update_path_same)
    moreover have "read_prop (JObj obj) ''status'' = JStr ''approved''"
      and "read_prop (JObj obj) ''partCode'' = JStr code"
      by (simp_all add: obj_def read_prop_def map_of_spread)
    ultimately show ?thesis by blast
  qed
qed

lemma rename_keeps_approval:
  assumes "lookup_path (store w1) (split_path (''partApplications/'' @ applicationId)) = JObj obj"
      and "name \<noteq> ''imageUrl''"
  shows "read_prop (lookup_path (store (snd (renamePartApplicationImage w1 applicationId code)))
                      (split_path (''partApplications/'' @ applicationId))) name
           = read_prop (JObj obj) name"
  using rename_outcome [of w1 applicationId code] assms
  by (auto simp: lookup_update_path_same read_prop_repointed_other)

text \<open>
  The part of the approval that survives a failing image step: once
  \<^verbatim>\<open>approvePartApplication\<close> has written the record, whatever
  \<^verbatim>\<open>renamePartApplicationImage\<close> then does, the stored record keeps status
  \<^verbatim>\<open>approved\<close> and the given part code. A failure of the image step, however, is thrown
  on to \<^verbatim>\<open>handleApprove\<close>, whose single \<^verbatim>\<open>catch\<close> reports the approval as failed.
\<close>

lemma handleApprove_approval_persists:
  assumes dialog: "approveDialog ui = Some application"
      and code: "trim (partCode ui) \<noteq> []"
      and approved: "approvePartApplication w (app_id application) (trim (partCode ui)) now
                       = (Inr u, w1)"
      and present: "lookup_path (store w)
                      (split_path (''partApplications/'' @ app_id application)) \<noteq> JNull"
  shows "read_prop (lookup_path (store (snd (handleApprove ui w now)))
                      (split_path (''partApplications/'' @ app_id application))) ''status''
           = JStr ''approved''
       \<and> read_prop (lookup_path (store (snd (handleApprove ui w now)))
                      (split_path (''partApplications/'' @ app_id application))) ''partCode''
           = JStr (trim (partCode ui))
       \<and> (imageUrl application \<noteq> None \<and> imageUrl application \<noteq> Some []
            \<and> isl (fst (renamePartApplicationImage w1 (app_id application) (trim (partCode ui))))
          \<longrightarrow> message (fst (handleApprove ui w now))
                = Some (ErrorBanner ''Failed to approve application''))"
proof -
  from approve_writes_status [OF approved present] obtain obj where
      obj: "lookup_path (store w1) (split_path (''partApplications/'' @ app_id application)) = JObj obj"
    and st: "read_prop (JObj obj) ''status'' = JStr ''approved''"
    and pc: "read_prop (JObj obj) ''partCode'' = JStr (trim (partCode ui))"
    by blast
  define step where "step =
     (case imageUrl application of
        Some url \<Rightarrow>
          if url \<noteq> [] then
            renamePartApplicationImage w1 (app_id application) (trim (partCode ui))
          else (Inr (), w1)
      | None \<Rightarrow> (Inr (), w1))"
  obtain r2 w2 where s2: "step = (r2, w2)" by fastforce
  have keep: "read_prop (lookup_path (store w2)
                (split_path (''partApplications/'' @ app_id application))) name
              = read_prop (JObj obj) name" if "name \<noteq> ''imageUrl''" for name
    using s2 obj that rename_keeps_approval [OF obj that, of "trim (partCode ui)"]
    by (auto simp: step_def split: option.splits if_splits)
  obtain ui3 w3 where s3: "loadApplications ui w2 = (ui3, w3)" by fastforce
  have st3: "store w3 = store w2" using loadApplications_world [of ui w2] s3 by simp
  have res: "snd (handleApprove ui w now) = (if isl r2 then w2 else w3)"
    using dialog code approved s2 s3
    by (cases r2) (simp_all add: handleApprove_def step_def [symmetric])
  have msg: "isl r2 \<Longrightarrow> message (fst (handleApprove ui w now))
                = Some (ErrorBanner ''Failed to approve application'')"
    using dialog code approved s2
    by (cases r2) (simp_all add: handleApprove_def step_def [symmetric] showMessage_def)
  have "imageUrl application \<noteq> None \<and> imageUrl application \<noteq> Some []
          \<and> isl (fst (renamePartApplicationImage w1 (app_id application) (trim (partCode ui))))
        \<Longrightarrow> isl r2"
    using s2 by (auto simp: step_def split: option.splits if_splits)
  then show ?thesis
    using keep [of "''status''"] keep [of "''partCode''"] st pc res st3 msg by simp
qed

text \<open>
  C2. Approving the pending application \<^verbatim>\<open>APP0001\<close> with part code \<^verbatim>\<open>PC-100\<close> while
  the blob store fails: the stored record becomes approved with that part code, and the
  failure of the image re-homing is propagated to \<^verbatim>\<open>handleApprove\<close>, which shows
  \<^verbatim>\<open>Failed to approve application\<close> and leaves the dialog open.
\<close>

theorem handleApprove_reports_rename_failure:
  "message (fst (handleApprove sample_page failing_blob_store_world ''2025-02-01T00:00:00.000Z''))
     = Some (ErrorBanner ''Failed to approve application'')
   \<and> approveDialog (fst (handleApprove sample_page failing_blob_store_world
                          ''2025-02-01T00:00:00.000Z''))
     = approveDialog sample_page
   \<and> read_prop (lookup_path
        (store (snd (handleApprove sample_page failing_blob_store_world
                       ''2025-02-01T00:00:00.000Z'')))
        (split_path ''partApplications/APP0001'')) ''status'' = JStr ''approved''
   \<and> read_prop (lookup_path
        (store (snd (handleApprove sample_page failing_blob_store_world
                       ''2025-02-01T00:00:00.000Z'')))
        (split_path ''partApplications/APP0001'')) ''partCode'' = JStr ''PC-100''"
  by code_simp

end
